theory Spec2Isabelle
  imports Complex_Main
begin

section \<open>Numbers and randomness\<close>

text \<open>
  JavaScript numbers are modelled as reals. Positions, velocities and times are computed
  exactly: what is proved about them are comparisons and bounds. The products of the
  quality reduction of the metaballs are rounded as IEEE doubles (\<open>fmul\<close> below), because
  the number of blobs is the floor of such a product.
  Every call of \<open>Math.random()\<close> is a read of a stream \<open>rnd :: nat \<Rightarrow> real\<close> at the
  next index; the index is threaded through the code in the order of the calls.
\<close>

type_synonym rng = "nat \<Rightarrow> real"

definition unit_rng :: "rng \<Rightarrow> bool" where
  "unit_rng rnd \<longleftrightarrow> (\<forall>i. 0 \<le> rnd i \<and> rnd i < 1)"

text \<open>\<open>rand(min, max)\<close> of particle.jsx; \<open>u\<close> is the value \<open>Math.random()\<close> returned.\<close>

definition rand :: "real \<Rightarrow> real \<Rightarrow> real \<Rightarrow> real" where
  "rand u lo hi = u * (hi - lo) + lo"

text \<open>\<open>Math.round\<close>: the nearest integer, a tie going up.\<close>

definition Math_round :: "real \<Rightarrow> int" where
  "Math_round x = \<lfloor>x + 1 / 2\<rfloor>"

text \<open>
  Binary64 rounding, to nearest with a tie going to the even significand: \<open>to_double x\<close>
  is the double nearest to the real \<open>x\<close>, that is the multiple of
  \<open>2 ^ (e - 52)\<close> nearest to \<open>x\<close>, where \<open>2 ^ e \<le> \<bar>x\<bar> < 2 ^ (e + 1)\<close>. A decimal literal of the
  source such as \<open>0.35\<close> denotes \<open>to_double 0.35\<close>, and the product \<open>a * b\<close> of two doubles is
  \<open>fmul a b\<close>. The exponent is not bounded here: overflow to \<open>Infinity\<close> and the
  subnormal numbers are not modelled. An integer below \<open>2 ^ 53\<close> in absolute value is a
  double.
\<close>

definition round_even :: "real \<Rightarrow> int" where
  "round_even x =
    (let f = \<lfloor>x\<rfloor>; d = x - of_int f
     in if d < 1 / 2 then f else if d > 1 / 2 then f + 1 else if even f then f else f + 1)"

definition binade :: "real \<Rightarrow> int" where
  "binade x = \<lfloor>log 2 \<bar>x\<bar>\<rfloor>"

definition to_double :: "real \<Rightarrow> real" where
  "to_double x =
    (if x = 0 then 0
     else of_int (round_even (x / 2 powr (of_int (binade x) - 52)))
            * 2 powr (of_int (binade x) - 52))"

definition fmul :: "real \<Rightarrow> real \<Rightarrow> real" where
  "fmul a b = to_double (a * b)"

section \<open>The starfield (StarsBg, particle.jsx)\<close>

record props =
  colorBase :: "real list"
  density :: real
  maxStars :: real
  nebula :: bool
  clusters :: bool
  connect :: bool
  connectDistance :: real
  shootingFrequency :: real
  excludeSelector :: "string list"

record layer =
  layer_name :: string
  layer_depth :: real
  layer_sizeMult :: real
  layer_glow :: real
  layer_density :: real

record star =
  star_id :: "string \<times> nat \<times> int"
  star_x :: real
  star_y :: real
  baseX :: real
  baseY :: real
  star_r :: real
  star_depth :: real
  star_glow :: real
  star_color :: "int list"
  brightness :: real
  twinkleSpeed :: real
  twinklePhase :: real
  star_vx :: real
  star_vy :: real
  isBright :: bool

record shot =
  shot_x :: real
  shot_y :: real
  shot_vx :: real
  shot_vy :: real
  shot_len :: real
  shot_life :: real
  shot_age :: real

record excl_rect =
  rect_left :: real
  rect_top :: real
  rect_width :: real
  rect_height :: real

text \<open>
  The refs of the component and the part of the browser it talks to: the pending frame
  callbacks (by handle), the next handle \<open>requestAnimationFrame\<close> returns, and the
  listeners attached, as pairs of event type and handler name.
\<close>

record stars_state =
  dims_w :: real
  dims_h :: real
  dims_DPR :: real
  stars :: "star list"
  shots :: "shot list"
  excludeRects :: "excl_rect list"
  lastTime :: real
  lastShot :: real
  hidden :: bool
  rafRef :: nat
  lastPointer :: "(real \<times> real) option"
  frames :: "nat list"
  next_handle :: nat
  listeners :: "(string \<times> string) list"

text \<open>\<open>navigator.hardwareConcurrency && navigator.hardwareConcurrency <= 2\<close>;
  \<open>None\<close> is a browser that does not report the number.\<close>

definition isLowEndDevice :: "nat option \<Rightarrow> bool" where
  "isLowEndDevice hc = (case hc of None \<Rightarrow> False | Some n \<Rightarrow> n \<noteq> 0 \<and> n \<le> 2)"

definition layers :: "layer list" where
  "layers =
    [\<lparr>layer_name = ''far'', layer_depth = 0.28, layer_sizeMult = 0.7, layer_glow = 0.28,
      layer_density = 0.5\<rparr>,
     \<lparr>layer_name = ''mid'', layer_depth = 0.55, layer_sizeMult = 1.0, layer_glow = 0.5,
      layer_density = 0.35\<rparr>,
     \<lparr>layer_name = ''near'', layer_depth = 0.9, layer_sizeMult = 1.8, layer_glow = 1.0,
      layer_density = 0.15\<rparr>]"

text \<open>
  The colour of a star: each channel of \<open>colorBase\<close> (given here as the numbers the
  string splits into) shifted, rounded and clamped to 0..255.
\<close>

definition tint :: "real list \<Rightarrow> real \<Rightarrow> int list" where
  "tint cb tintShift =
     map (\<lambda>(idx, v). max 0 (min 255
            (Math_round (v + (if idx = (0::nat) then tintShift else tintShift * 0.35)))))
         (enumerate 0 cb)"

text \<open>
  The body of the inner loop of \<open>buildStars\<close>: one star of layer \<open>l\<close>, index \<open>i\<close>,
  reading the random stream from index \<open>k\<close> on; the result carries the next index.
  The cluster test \<open>clusters && Math.random() < 0.12\<close> draws only when \<open>clusters\<close> is set.
\<close>

definition make_star ::
  "props \<Rightarrow> real \<Rightarrow> real \<Rightarrow> layer \<Rightarrow> nat \<Rightarrow> rng \<Rightarrow> nat \<Rightarrow> star \<times> nat" where
  "make_star p w h l i rnd k =
    (let baseRadius = rand (rnd k) 0.35 1.9 * layer_sizeMult l;
         tintShift = rand (rnd (k + 1)) (- 18) 18;
         color = tint (colorBase p) tintShift;
         bright = rand (rnd (k + 2)) 0.6 1;
         tSpeed = rand (rnd (k + 3)) 0.45 1.6 * (if layer_depth l < 0.5 then 0.85 else 1.25);
         tPhase = rnd (k + 4) * pi * 2;
         x0 = rnd (k + 5) * w;
         y0 = rnd (k + 6) * h;
         inCluster = (clusters p \<and> rnd (k + 7) < 0.12);
         k1 = (if clusters p then k + 8 else k + 7);
         (x, y, k2) =
           (if inCluster then
              (let cx = rnd k1 * w;
                   cy = rnd (k1 + 1) * h;
                   rCluster = min w h * rand (rnd (k1 + 2)) 0.04 0.14;
                   x1 = max 0 (min w (cx + rand (rnd (k1 + 3)) (- 1) 1 * rCluster
                                      * \<bar>rand (rnd (k1 + 4)) (- 1) 1\<bar>));
                   y1 = max 0 (min h (cy + rand (rnd (k1 + 5)) (- 1) 1 * rCluster
                                      * \<bar>rand (rnd (k1 + 6)) (- 1) 1\<bar>))
               in (x1, y1, k1 + 7))
            else (x0, y0, k1))
     in (\<lparr>star_id = (layer_name l, i, \<lfloor>rnd k2 * 1000000\<rfloor>),
          star_x = x, star_y = y, baseX = x, baseY = y,
          star_r = baseRadius, star_depth = layer_depth l, star_glow = layer_glow l,
          star_color = color, brightness = bright,
          twinkleSpeed = tSpeed, twinklePhase = tPhase,
          star_vx = rand (rnd (k2 + 1)) (- 0.006) 0.006,
          star_vy = rand (rnd (k2 + 2)) (- 0.006) 0.006,
          isBright = (rnd (k2 + 3) < 0.02)\<rparr>, k2 + 4))"

text \<open>\<open>for (let i = 0; i < n; i++) stars.push(...)\<close>, with \<open>m\<close> the iterations left.\<close>

fun layer_stars ::
  "props \<Rightarrow> real \<Rightarrow> real \<Rightarrow> layer \<Rightarrow> rng \<Rightarrow> nat \<Rightarrow> nat \<Rightarrow> nat \<Rightarrow> star list \<times> nat" where
  "layer_stars p w h l rnd 0 i k = ([], k)"
| "layer_stars p w h l rnd (Suc m) i k =
     (let (s, k') = make_star p w h l i rnd k;
          (ss, k'') = layer_stars p w h l rnd m (Suc i) k'
      in (s # ss, k''))"

text \<open>\<open>layers.forEach\<close>: \<open>n = Math.max(1, Math.round(count * layer.density))\<close> stars each.\<close>

fun all_layers ::
  "props \<Rightarrow> real \<Rightarrow> real \<Rightarrow> real \<Rightarrow> rng \<Rightarrow> layer list \<Rightarrow> nat \<Rightarrow> star list \<times> nat" where
  "all_layers p w h cnt rnd [] k = ([], k)"
| "all_layers p w h cnt rnd (l # ls) k =
     (let n = max 1 (Math_round (cnt * layer_density l));
          (ss, k') = layer_stars p w h l rnd (nat n) 0 k;
          (rest, k'') = all_layers p w h cnt rnd ls k'
      in (ss @ rest, k''))"

definition star_count :: "props \<Rightarrow> bool \<Rightarrow> real \<Rightarrow> real \<Rightarrow> real" where
  "star_count p lowEnd w h =
    (let area = max 1 (w * h);
         desired = Math_round ((area / 100000) * density p);
         cap = min (maxStars p) (of_int desired)
     in if lowEnd then of_int (Math_round (cap * 0.45)) else cap)"

text \<open>
  \<open>buildStars\<close>: the stars of all layers, sorted by depth (the sort of an array is
  stable), the shot list emptied, \<open>lastShot\<close> set to the current time. The result
  carries the next index of the random stream.
\<close>

definition buildStars ::
  "props \<Rightarrow> nat option \<Rightarrow> rng \<Rightarrow> nat \<Rightarrow> real \<Rightarrow> stars_state \<Rightarrow> stars_state \<times> nat" where
  "buildStars p hc rnd k now st =
    (let w = dims_w st; h = dims_h st;
         cnt = star_count p (isLowEndDevice hc) w h;
         (ss, k') = all_layers p w h cnt rnd layers k
     in (st\<lparr>stars := sort_key star_depth ss, shots := [], lastShot := now\<rparr>, k'))"

text \<open>The defaults of the component's props; no selector is excluded.\<close>

definition default_props :: props where
  "default_props =
    \<lparr>colorBase = [255, 200, 170], density = 7, maxStars = 280, nebula = True,
     clusters = True, connect = False, connectDistance = 120, shootingFrequency = 10,
     excludeSelector = []\<rparr>"

text \<open>The refs as \<open>useRef\<close> creates them; \<open>t0\<close> is \<open>performance.now()\<close> at the first render.\<close>

definition initial_refs :: "real \<Rightarrow> stars_state" where
  "initial_refs t0 =
    \<lparr>dims_w = 0, dims_h = 0, dims_DPR = 1, stars = [], shots = [], excludeRects = [],
     lastTime = t0, lastShot = 0, hidden = False, rafRef = 0, lastPointer = None,
     frames = [], next_handle = 1, listeners = []\<rparr>"

text \<open>
  What the handlers measure in the page: the canvas rectangle and, for each selector, the
  rectangles (left, top, right, bottom) of the elements it matches. A selector that is
  invalid throws inside \<open>try\<close> and contributes nothing, like one that matches nothing.
\<close>

record layout =
  canvas_left :: real
  canvas_top :: real
  canvas_width :: real
  canvas_height :: real
  matches :: "string \<Rightarrow> (real \<times> real \<times> real \<times> real) list"

definition clip_rect :: "layout \<Rightarrow> real \<times> real \<times> real \<times> real \<Rightarrow> excl_rect list" where
  "clip_rect lay r =
    (case r of (rl, rt, rr, rb) \<Rightarrow>
      (let left = max 0 (of_int \<lfloor>rl - canvas_left lay\<rfloor>);
           top = max 0 (of_int \<lfloor>rt - canvas_top lay\<rfloor>);
           right = min (canvas_width lay) (of_int \<lfloor>rr - canvas_left lay\<rfloor>);
           bottom = min (canvas_height lay) (of_int \<lfloor>rb - canvas_top lay\<rfloor>);
           width = max 0 (right - left);
           height = max 0 (bottom - top)
       in if width > 0 \<and> height > 0
          then [\<lparr>rect_left = left, rect_top = top, rect_width = width, rect_height = height\<rparr>]
          else []))"

text \<open>\<open>updateExcludeRects\<close> and its copy \<open>updateExcludeRectsWrapper\<close> compute the same.\<close>

definition updateExcludeRects :: "props \<Rightarrow> layout \<Rightarrow> stars_state \<Rightarrow> stars_state" where
  "updateExcludeRects p lay st =
     st\<lparr>excludeRects :=
          concat (map (\<lambda>sel. concat (map (clip_rect lay) (matches lay sel)))
                      (excludeSelector p))\<rparr>"

text \<open>
  \<open>resize\<close>: the size of the canvas, at least 1 each way, the pixel ratio between 1 and 2
  (\<open>window.devicePixelRatio || 1\<close>), then a rebuild of the stars.
\<close>

definition resize ::
  "props \<Rightarrow> nat option \<Rightarrow> rng \<Rightarrow> nat \<Rightarrow> layout \<Rightarrow> real \<Rightarrow> real \<Rightarrow> stars_state
     \<Rightarrow> stars_state \<times> nat" where
  "resize p hc rnd k lay dpr now st =
    (let w = max 1 (of_int \<lfloor>canvas_width lay\<rfloor>);
         h = max 1 (of_int \<lfloor>canvas_height lay\<rfloor>);
         DPR = max 1 (min 2 (if dpr = 0 then 1 else dpr));
         st1 = st\<lparr>dims_w := w, dims_h := h, dims_DPR := DPR\<rparr>;
         (st2, k') = buildStars p hc rnd k now st1
     in (updateExcludeRects p lay st2, k'))"

text \<open>\<open>spawnShot\<close>: a shooting star entering from the left or from the right.\<close>

definition spawnShot :: "rng \<Rightarrow> nat \<Rightarrow> stars_state \<Rightarrow> stars_state \<times> nat" where
  "spawnShot rnd k st =
    (let w = dims_w st; h = dims_h st;
         fromLeft = (rnd k < 0.5);
         startX = (if fromLeft then - 60 else w + 60);
         startY = rnd (k + 1) * h * 0.55;
         angle = (if fromLeft then rand (rnd (k + 2)) 0.2 0.35 * pi
                  else rand (rnd (k + 2)) 0.65 0.8 * pi);
         speed = rand (rnd (k + 3)) 700 1300 / 1000;
         len = rand (rnd (k + 4)) 180 420;
         life = rand (rnd (k + 5)) 420 1000
     in (st\<lparr>shots := shots st @
               [\<lparr>shot_x = startX, shot_y = startY, shot_vx = cos angle * speed,
                 shot_vy = sin angle * speed, shot_len = len, shot_life = life,
                 shot_age = 0\<rparr>]\<rparr>, k + 6))"

text \<open>
  \<open>maybeSpawnShot\<close>, as the source defines it. Nothing in particle.jsx calls it: not
  \<open>draw\<close>, not a handler, not the effect body.
\<close>

definition maybeSpawnShot :: "props \<Rightarrow> rng \<Rightarrow> nat \<Rightarrow> real \<Rightarrow> stars_state \<Rightarrow> stars_state \<times> nat" where
  "maybeSpawnShot p rnd k now st =
    (let dt = min 1000 (now - lastTime st)
     in if shootingFrequency p > 0
        then (if rnd k < dt / (shootingFrequency p * 1000) then spawnShot rnd (k + 1) st
              else (st, k + 1))
        else (st, k))"

text \<open>
  The motion of one star in \<open>draw\<close>, in the order of the source: the drift, the four
  edge tests, the twinkle.
\<close>

definition drift_star :: "real \<Rightarrow> star \<Rightarrow> star" where
  "drift_star dt s =
    (let s1 = s\<lparr>star_x := star_x s + star_vx s * dt\<rparr>
     in s1\<lparr>star_y := star_y s1 + star_vy s1 * dt\<rparr>)"

definition wrap_star :: "real \<Rightarrow> real \<Rightarrow> star \<Rightarrow> star" where
  "wrap_star w h s =
    (let s3 = (if star_x s < - 20 then s\<lparr>star_x := w + 20, baseX := w + 20\<rparr> else s);
         s4 = (if star_x s3 > w + 20 then s3\<lparr>star_x := - 20, baseX := - 20\<rparr> else s3);
         s5 = (if star_y s4 < - 20 then s4\<lparr>star_y := h + 20, baseY := h + 20\<rparr> else s4)
     in (if star_y s5 > h + 20 then s5\<lparr>star_y := - 20, baseY := - 20\<rparr> else s5))"

definition twinkle :: "real \<Rightarrow> star \<Rightarrow> star" where
  "twinkle dt s = s\<lparr>twinklePhase := twinklePhase s + (twinkleSpeed s * dt) / 1000\<rparr>"

definition move_star :: "real \<Rightarrow> real \<Rightarrow> real \<Rightarrow> star \<Rightarrow> star" where
  "move_star w h dt s = twinkle dt (wrap_star w h (drift_star dt s))"

text \<open>The opacity a star is painted with, between 0.12 and 1.\<close>

definition star_alpha :: "star \<Rightarrow> real" where
  "star_alpha s = max 0.12 (min 1 (brightness s * (0.75 + 0.25 * sin (twinklePhase s * 2))))"

text \<open>
  The loop over the shots in \<open>draw\<close> runs from the last index down; a shot older than its
  life is spliced out, the others move. No shot depends on another, so the loop is a
  pass over the list.
\<close>

fun step_shots :: "real \<Rightarrow> shot list \<Rightarrow> shot list" where
  "step_shots dt [] = []"
| "step_shots dt (q # qs) =
     (let q1 = q\<lparr>shot_age := shot_age q + dt\<rparr>
      in if shot_age q1 > shot_life q1 then step_shots dt qs
         else q1\<lparr>shot_x := shot_x q1 + shot_vx q1 * dt, shot_y := shot_y q1 + shot_vy q1 * dt\<rparr>
              # step_shots dt qs)"

definition request_frame :: "stars_state \<Rightarrow> stars_state" where
  "request_frame st =
     st\<lparr>rafRef := next_handle st, frames := frames st @ [next_handle st],
        next_handle := Suc (next_handle st)\<rparr>"

text \<open>
  \<open>draw(now)\<close>: what it does to the refs. The painting (nebula, glows, connecting lines,
  trails, the clearing of the excluded rectangles) reads the state and writes the canvas
  only.
\<close>

definition draw :: "real \<Rightarrow> stars_state \<Rightarrow> stars_state" where
  "draw now st =
    (let dt = min 40 (now - lastTime st);
         st1 = st\<lparr>lastTime := now\<rparr>
     in if hidden st1 then request_frame st1
        else request_frame
               (st1\<lparr>stars := map (move_star (dims_w st1) (dims_h st1) dt) (stars st1),
                    shots := step_shots dt (shots st1)\<rparr>))"

definition stars_listeners :: "(string \<times> string) list" where
  "stars_listeners =
    [(''resize'', ''resize''), (''scroll'', ''updateExcludeRectsWrapper''),
     (''mousemove'', ''onPointerMove''), (''touchmove'', ''onPointerMove''),
     (''visibilitychange'', ''onVisibility'')]"

text \<open>The body of the effect, with the canvas present.\<close>

definition stars_mount ::
  "props \<Rightarrow> nat option \<Rightarrow> rng \<Rightarrow> nat \<Rightarrow> layout \<Rightarrow> real \<Rightarrow> real \<Rightarrow> stars_state
     \<Rightarrow> stars_state \<times> nat" where
  "stars_mount p hc rnd k lay dpr now st =
    (let (st1, k1) = resize p hc rnd k lay dpr now st;
         st2 = request_frame (st1\<lparr>lastTime := now\<rparr>);
         st3 = st2\<lparr>listeners := listeners st2 @ stars_listeners\<rparr>
     in if shootingFrequency p > 0
        then (st3\<lparr>lastShot := now - rnd k1 * shootingFrequency p * 1000\<rparr>, Suc k1)
        else (st3, k1))"

text \<open>The function the effect returns.\<close>

definition stars_cleanup :: "stars_state \<Rightarrow> stars_state" where
  "stars_cleanup st =
     st\<lparr>frames := removeAll (rafRef st) (frames st),
        listeners := foldl (\<lambda>ls l. remove1 l ls) (listeners st) stars_listeners\<rparr>"

text \<open>
  What the browser can do to the mounted component: run the pending frame callbacks, or
  fire an event, which runs the handler only while the listener is attached.
\<close>

datatype stars_event =
    Tick real
  | Resize layout real real
  | Scroll layout
  | PointerMove real real layout
  | VisibilityChange bool

fun run_frames :: "real \<Rightarrow> nat list \<Rightarrow> stars_state \<Rightarrow> stars_state" where
  "run_frames now [] st = st"
| "run_frames now (f # fs) st =
     (if f \<in> set (frames st)
      then run_frames now fs (draw now (st\<lparr>frames := removeAll f (frames st)\<rparr>))
      else run_frames now fs st)"

fun stars_step ::
  "props \<Rightarrow> nat option \<Rightarrow> rng \<Rightarrow> stars_event \<Rightarrow> stars_state \<times> nat \<Rightarrow> stars_state \<times> nat" where
  "stars_step p hc rnd (Tick now) (st, k) = (run_frames now (frames st) st, k)"
| "stars_step p hc rnd (Resize lay dpr now) (st, k) =
     (if (''resize'', ''resize'') \<in> set (listeners st) then resize p hc rnd k lay dpr now st
      else (st, k))"
| "stars_step p hc rnd (Scroll lay) (st, k) =
     (if (''scroll'', ''updateExcludeRectsWrapper'') \<in> set (listeners st)
      then (updateExcludeRects p lay st, k) else (st, k))"
| "stars_step p hc rnd (PointerMove cx cy lay) (st, k) =
     (if (''mousemove'', ''onPointerMove'') \<in> set (listeners st)
         \<or> (''touchmove'', ''onPointerMove'') \<in> set (listeners st)
      then (st\<lparr>lastPointer := Some (cx - canvas_left lay, cy - canvas_top lay)\<rparr>, k)
      else (st, k))"
| "stars_step p hc rnd (VisibilityChange hid) (st, k) =
     (if (''visibilitychange'', ''onVisibility'') \<in> set (listeners st)
      then (st\<lparr>hidden := hid\<rparr>, k) else (st, k))"

fun stars_run ::
  "props \<Rightarrow> nat option \<Rightarrow> rng \<Rightarrow> stars_event list \<Rightarrow> stars_state \<times> nat \<Rightarrow> stars_state \<times> nat" where
  "stars_run p hc rnd [] sk = sk"
| "stars_run p hc rnd (e # es) sk = stars_run p hc rnd es (stars_step p hc rnd e sk)"

section \<open>The metaballs (MetaballsBg, Contact.jsx)\<close>

record mb_props =
  mb_count :: int
  mb_color :: string
  minR :: real
  maxR :: real
  mb_speed :: real
  mb_blur :: real
  mb_z :: int
  mb_fixed :: bool
  autoReduce :: bool
  mb_debug :: bool

definition mb_default_props :: mb_props where
  "mb_default_props =
    \<lparr>mb_count = 6, mb_color = ''255,140,90'', minR = 64, maxR = 180, mb_speed = 0.14,
     mb_blur = 28, mb_z = - 30, mb_fixed = True, autoReduce = False, mb_debug = False\<rparr>"

text \<open>
  What the browser reports: whether there is a \<open>window\<close>, \<open>navigator.deviceMemory\<close> and
  \<open>navigator.hardwareConcurrency\<close> (\<open>None\<close> when absent), whether \<open>window.matchMedia\<close>
  exists, what the query \<open>(prefers-reduced-motion: reduce)\<close> answers, and whether
  \<open>ResizeObserver\<close> is defined.
\<close>

record device =
  has_window :: bool
  deviceMemory :: "real option"
  hardwareConcurrency :: "nat option"
  has_matchMedia :: bool
  reduced_motion :: bool
  has_ResizeObserver :: bool

text \<open>
  The three tests of the \<open>useMemo\<close>: \<open>dm\<close> and \<open>hc\<close> are 0 when the navigator does not
  report them, and 0 is falsy.
\<close>

definition mb_prefersReduced :: "device \<Rightarrow> bool" where
  "mb_prefersReduced d \<longleftrightarrow> has_matchMedia d \<and> reduced_motion d"

definition lowMemory :: "device \<Rightarrow> bool" where
  "lowMemory d =
    (let dm = (case deviceMemory d of None \<Rightarrow> 0 | Some m \<Rightarrow> m) in dm \<noteq> 0 \<and> dm \<le> 2)"

definition fewCores :: "device \<Rightarrow> bool" where
  "fewCores d =
    (let hc = (case hardwareConcurrency d of None \<Rightarrow> 0 | Some n \<Rightarrow> n) in hc \<noteq> 0 \<and> hc \<le> 2)"

text \<open>
  The \<open>useMemo\<close> that yields \<open>countToUse\<close>, \<open>blurToUse\<close> and \<open>speedToUse\<close>. The props are
  doubles; the products are products of doubles.
\<close>

definition quality :: "mb_props \<Rightarrow> device \<Rightarrow> int \<times> real \<times> real" where
  "quality p d =
    (if autoReduce p \<and> has_window d then
       (if mb_prefersReduced d then
          (max 2 \<lfloor>fmul (of_int (mb_count p)) (to_double 0.35)\<rfloor>,
           max 6 (of_int \<lfloor>fmul (mb_blur p) (to_double 0.45)\<rfloor>),
           max 0.25 (fmul (mb_speed p) (to_double 0.5)))
        else if lowMemory d \<or> fewCores d then
          (max 2 \<lfloor>fmul (of_int (mb_count p)) (to_double 0.5)\<rfloor>,
           max 8 (of_int \<lfloor>fmul (mb_blur p) (to_double 0.6)\<rfloor>),
           max (to_double 0.4) (fmul (mb_speed p) (to_double 0.6)))
        else (mb_count p, mb_blur p, mb_speed p))
     else (mb_count p, mb_blur p, mb_speed p))"

definition countToUse :: "mb_props \<Rightarrow> device \<Rightarrow> int" where
  "countToUse p d = fst (quality p d)"

definition blurToUse :: "mb_props \<Rightarrow> device \<Rightarrow> real" where
  "blurToUse p d = fst (snd (quality p d))"

definition speedToUse :: "mb_props \<Rightarrow> device \<Rightarrow> real" where
  "speedToUse p d = snd (snd (quality p d))"

record blob =
  blob_r :: real
  blob_x :: real
  blob_y :: real
  blob_vx :: real
  blob_vy :: real
  phase :: real
  phaseSpeed :: real
  drift :: real
  driftFactor :: real

record mb_state =
  size_w :: real
  size_h :: real
  blobs :: "blob list"
  mb_lastTime :: "real option"
  mb_rafRef :: nat
  resizeObserverRef :: bool
  mb_frames :: "nat list"
  mb_next_handle :: nat
  observing :: bool
  mb_listeners :: "(string \<times> string) list"
  doc_hidden :: bool

definition mb_initial_refs :: mb_state where
  "mb_initial_refs =
    \<lparr>size_w = 0, size_h = 0, blobs = [], mb_lastTime = None, mb_rafRef = 0,
     resizeObserverRef = False, mb_frames = [], mb_next_handle = 1, observing = False,
     mb_listeners = [], doc_hidden = False\<rparr>"

text \<open>The callback of \<open>Array.from({ length: countToUse }).map\<close>: nine draws a blob.\<close>

definition make_blob :: "mb_props \<Rightarrow> real \<Rightarrow> real \<Rightarrow> real \<Rightarrow> rng \<Rightarrow> nat \<Rightarrow> blob" where
  "make_blob p spd w h rnd k =
    (let r = of_int \<lfloor>rnd k * (maxR p - minR p) + minR p\<rfloor>;
         baseV = 0.08
     in \<lparr>blob_r = r,
         blob_x = rnd (k + 1) * w,
         blob_y = rnd (k + 2) * h,
         blob_vx = (rnd (k + 3) - 0.5) * baseV * spd,
         blob_vy = (rnd (k + 4) - 0.5) * baseV * spd * 0.6,
         phase = rnd (k + 5) * pi * 2,
         phaseSpeed = 0.0025 + rnd (k + 6) * 0.0018,
         drift = 0.0006 + rnd (k + 7) * 0.0024,
         driftFactor = 0.002 + rnd (k + 8) * 0.004\<rparr>)"

text \<open>
  \<open>seed\<close>: the box of the container, at least 1 each way, and a fresh array of blobs:
  \<open>Array.from({ length: countToUse })\<close> has \<open>countToUse\<close> elements, none for a length below
  0. The styling of the blob elements that follows writes the page only.
\<close>

definition seed ::
  "mb_props \<Rightarrow> device \<Rightarrow> rng \<Rightarrow> nat \<Rightarrow> real \<Rightarrow> real \<Rightarrow> mb_state \<Rightarrow> mb_state \<times> nat" where
  "seed p d rnd k box_w box_h st =
    (let w = max 1 box_w; h = max 1 box_h;
         n = nat (countToUse p d)
     in (st\<lparr>size_w := w, size_h := h,
            blobs := map (\<lambda>i. make_blob p (speedToUse p d) w h rnd (k + 9 * i)) [0..<n]\<rparr>,
         k + 9 * n))"

text \<open>
  The body of the loop of \<open>animate\<close> for one blob, in the order of the source: the
  phase and the drift, then the four edge tests.
\<close>

definition drift_blob :: "real \<Rightarrow> real \<Rightarrow> real \<Rightarrow> blob \<Rightarrow> blob" where
  "drift_blob w h dt b =
    (let b1 = b\<lparr>phase := phase b + phaseSpeed b * (dt / 16.6667)\<rparr>;
         b2 = b1\<lparr>blob_x := blob_x b1 + (blob_vx b1 * (dt / 16.6667)
                              + sin (phase b1) * drift b1 * w * driftFactor b1)\<rparr>
     in b2\<lparr>blob_y := blob_y b2 + (blob_vy b2 * (dt / 16.6667)
                         + cos (phase b2) * drift b2 * h * driftFactor b2)\<rparr>)"

definition wrap_blob :: "real \<Rightarrow> real \<Rightarrow> blob \<Rightarrow> blob" where
  "wrap_blob w h b =
    (let b4 = (if blob_x b < - blob_r b then b\<lparr>blob_x := w + blob_r b\<rparr> else b);
         b5 = (if blob_x b4 > w + blob_r b4 then b4\<lparr>blob_x := - blob_r b4\<rparr> else b4);
         b6 = (if blob_y b5 < - blob_r b5 then b5\<lparr>blob_y := h + blob_r b5\<rparr> else b5)
     in (if blob_y b6 > h + blob_r b6 then b6\<lparr>blob_y := - blob_r b6\<rparr> else b6))"

definition move_blob :: "real \<Rightarrow> real \<Rightarrow> real \<Rightarrow> blob \<Rightarrow> blob" where
  "move_blob w h dt b = wrap_blob w h (drift_blob w h dt b)"

definition mb_request_frame :: "mb_state \<Rightarrow> mb_state" where
  "mb_request_frame st =
     st\<lparr>mb_rafRef := mb_next_handle st, mb_frames := mb_frames st @ [mb_next_handle st],
        mb_next_handle := Suc (mb_next_handle st)\<rparr>"

text \<open>\<open>animate(ts)\<close>: while the tab is hidden only the time baseline moves.\<close>

definition animate :: "real \<Rightarrow> mb_state \<Rightarrow> mb_state" where
  "animate ts st =
    (if doc_hidden st then (mb_request_frame st)\<lparr>mb_lastTime := Some ts\<rparr>
     else
       (let last = (case mb_lastTime st of None \<Rightarrow> ts | Some t \<Rightarrow> t);
            dt = max 1 (ts - last);
            st1 = st\<lparr>mb_lastTime := Some ts\<rparr>
        in mb_request_frame
             (st1\<lparr>blobs := map (move_blob (size_w st1) (size_h st1) dt) (blobs st1)\<rparr>)))"

text \<open>
  The body of the effect, with the container present: seed, the first frame request, the
  observer of the container (a \<open>resize\<close> listener of the window where \<open>ResizeObserver\<close>
  is missing), the visibility listener.
\<close>

definition mb_mount ::
  "mb_props \<Rightarrow> device \<Rightarrow> rng \<Rightarrow> nat \<Rightarrow> real \<Rightarrow> real \<Rightarrow> mb_state \<Rightarrow> mb_state \<times> nat" where
  "mb_mount p d rnd k box_w box_h st =
    (let (st1, k1) = seed p d rnd k box_w box_h st;
         st2 = mb_request_frame st1;
         st3 = (if has_ResizeObserver d then st2\<lparr>resizeObserverRef := True, observing := True\<rparr>
                else st2\<lparr>resizeObserverRef := True,
                         mb_listeners := mb_listeners st2 @ [(''resize'', ''onResize'')]\<rparr>)
     in (st3\<lparr>mb_listeners := mb_listeners st3 @ [(''visibilitychange'', ''handleVisibility'')]\<rparr>,
         k1))"

text \<open>
  The function the effect returns. A handle of \<open>requestAnimationFrame\<close> is never 0, which
  is what \<open>if (rafRef.current)\<close> tests. \<open>disconnect\<close> stops the observer, or removes the
  \<open>resize\<close> listener of the fallback.
\<close>

definition mb_cleanup :: "mb_state \<Rightarrow> mb_state" where
  "mb_cleanup st =
    (let st1 = (if mb_rafRef st \<noteq> 0
                then st\<lparr>mb_frames := removeAll (mb_rafRef st) (mb_frames st)\<rparr> else st);
         st2 = (if resizeObserverRef st1
                then st1\<lparr>observing := False,
                         mb_listeners := remove1 (''resize'', ''onResize'') (mb_listeners st1),
                         resizeObserverRef := False\<rparr>
                else st1)
     in st2\<lparr>mb_listeners := remove1 (''visibilitychange'', ''handleVisibility'')
                               (mb_listeners st2)\<rparr>)"

text \<open>
  The render runs before the effect. It resizes the array of element refs, empty at the
  first render, when its length is not \<open>countToUse\<close>: \<open>Array(countToUse)\<close> throws a
  \<open>RangeError\<close> unless \<open>countToUse\<close> is an array length, an integer from 0 to \<open>2 ^ 32 - 1\<close>.
  The result is the number of element refs, one for each blob element rendered.
\<close>

datatype js_error = RangeError

definition render_blobEls :: "mb_props \<Rightarrow> device \<Rightarrow> js_error + nat" where
  "render_blobEls p d =
    (if countToUse p d = 0 then Inr 0
     else if countToUse p d < 0 \<or> 2 ^ 32 \<le> countToUse p d then Inl RangeError
     else Inr (nat (countToUse p d)))"

text \<open>
  The first render of the component followed by its effect: a render that throws
  mounts nothing and the effect does not run.
\<close>

definition mb_component ::
  "mb_props \<Rightarrow> device \<Rightarrow> rng \<Rightarrow> nat \<Rightarrow> real \<Rightarrow> real \<Rightarrow> mb_state
     \<Rightarrow> js_error + (mb_state \<times> nat)" where
  "mb_component p d rnd k box_w box_h st =
    (case render_blobEls p d of
       Inl e \<Rightarrow> Inl e
     | Inr n \<Rightarrow> Inr (mb_mount p d rnd k box_w box_h st))"

datatype mb_event =
    MbTick real
  | MbResize real real
  | MbVisibility bool

fun mb_run_frames :: "real \<Rightarrow> nat list \<Rightarrow> mb_state \<Rightarrow> mb_state" where
  "mb_run_frames ts [] st = st"
| "mb_run_frames ts (f # fs) st =
     (if f \<in> set (mb_frames st)
      then mb_run_frames ts fs (animate ts (st\<lparr>mb_frames := removeAll f (mb_frames st)\<rparr>))
      else mb_run_frames ts fs st)"

text \<open>
  A size change of the container reaches \<open>seed\<close> through the observer or through the
  \<open>resize\<close> listener; a change of visibility reaches \<open>handleVisibility\<close>, which drops the
  time baseline when the tab is visible again.
\<close>

fun mb_step ::
  "mb_props \<Rightarrow> device \<Rightarrow> rng \<Rightarrow> mb_event \<Rightarrow> mb_state \<times> nat \<Rightarrow> mb_state \<times> nat" where
  "mb_step p d rnd (MbTick ts) (st, k) = (mb_run_frames ts (mb_frames st) st, k)"
| "mb_step p d rnd (MbResize bw bh) (st, k) =
     (if observing st \<or> (''resize'', ''onResize'') \<in> set (mb_listeners st)
      then seed p d rnd k bw bh st else (st, k))"
| "mb_step p d rnd (MbVisibility hid) (st, k) =
     (let st1 = st\<lparr>doc_hidden := hid\<rparr>
      in if (''visibilitychange'', ''handleVisibility'') \<in> set (mb_listeners st1)
         then ((if hid then st1 else st1\<lparr>mb_lastTime := None\<rparr>), k)
         else (st1, k))"

fun mb_run ::
  "mb_props \<Rightarrow> device \<Rightarrow> rng \<Rightarrow> mb_event list \<Rightarrow> mb_state \<times> nat \<Rightarrow> mb_state \<times> nat" where
  "mb_run p d rnd [] sk = sk"
| "mb_run p d rnd (e # es) sk = mb_run p d rnd es (mb_step p d rnd e sk)"

section \<open>The constellation overlay (ConstellationOverlay)\<close>

record co_props =
  maxLinkDistance :: real
  parallaxStrength :: real

definition co_default_props :: co_props where
  "co_default_props = \<lparr>maxLinkDistance = 260, parallaxStrength = 0.03\<rparr>"

text \<open>
  A node object of \<open>nodesRef\<close>: the page element it stands for, its centre, its index, and
  whether the object carries the handlers \<open>_enter\<close> and \<open>_leave\<close> that
  \<open>attachNodeListeners\<close> stores on it.
\<close>

record node =
  node_el :: nat
  node_cx :: real
  node_cy :: real
  node_idx :: nat
  has_handlers :: bool

text \<open>
  The page as \<open>rebuild\<close> measures it: the elements \<open>nodeSelector\<close> matches, in document
  order, and the centre of each element relative to the overlay.
\<close>

record page =
  query :: "nat list"
  centre :: "nat \<Rightarrow> real \<times> real"

text \<open>The callbacks the overlay hands to the browser.\<close>

datatype co_callback = RafLoop | MoRebuild | RecalcRebuild | TimeoutRebuild | IntervalUpdate

record co_state =
  svg_present :: bool
  nodesRef :: "node list"
  linksRef :: "(nat \<times> nat) list"
  co_rafRef :: nat
  rebuildScheduled :: bool
  pending :: bool
  intervalId :: nat
  co_pointer :: "(real \<times> real) option"
  co_frames :: "(nat \<times> co_callback) list"
  co_timers :: "(nat \<times> co_callback) list"
  co_next_handle :: nat
  co_listeners :: "(string \<times> string) list"
  node_listeners :: "(nat \<times> string) list"
  mo_connected :: bool
  rebuilds :: nat
  observer_rebuilds :: nat

definition co_initial_refs :: co_state where
  "co_initial_refs =
    \<lparr>svg_present = True, nodesRef = [], linksRef = [], co_rafRef = 0,
     rebuildScheduled = False, pending = False, intervalId = 0, co_pointer = None,
     co_frames = [], co_timers = [], co_next_handle = 1, co_listeners = [],
     node_listeners = [], mo_connected = False, rebuilds = 0, observer_rebuilds = 0\<rparr>"

definition node_dist :: "node \<Rightarrow> node \<Rightarrow> real" where
  "node_dist a b =
     sqrt ((node_cx a - node_cx b) * (node_cx a - node_cx b)
           + (node_cy a - node_cy b) * (node_cy a - node_cy b))"

text \<open>The double loop of \<open>rebuild\<close>: a link for every pair within the distance.\<close>

definition build_links :: "real \<Rightarrow> node list \<Rightarrow> (nat \<times> nat) list" where
  "build_links maxd ns =
     concat (map (\<lambda>i. concat (map (\<lambda>j. if node_dist (ns ! i) (ns ! j) \<le> maxd then [(i, j)] else [])
                                    [Suc i..<length ns]))
                 [0..<length ns])"

text \<open>\<open>updatePositions\<close>: every node object gets the centre of its element again.\<close>

definition updatePositions :: "page \<Rightarrow> co_state \<Rightarrow> co_state" where
  "updatePositions pg st =
    (if \<not> svg_present st then st
     else st\<lparr>nodesRef := map (\<lambda>n. n\<lparr>node_cx := fst (centre pg (node_el n)),
                                      node_cy := snd (centre pg (node_el n))\<rparr>) (nodesRef st)\<rparr>)"

text \<open>
  \<open>rebuild\<close>: nothing without the overlay element; otherwise \<open>nodesRef\<close> becomes a list of
  new objects for the first 140 matches, and the links are made anew. The counter
  \<open>rebuilds\<close> is not in the source: it counts the rebuilds that ran. The links to target
  elements and the mask are drawn from the same measurements and are not part of the model.
\<close>

definition rebuild :: "co_props \<Rightarrow> page \<Rightarrow> co_state \<Rightarrow> co_state" where
  "rebuild p pg st =
    (if \<not> svg_present st then st
     else
       (let ns = map (\<lambda>(i, el). \<lparr>node_el = el, node_cx = fst (centre pg el),
                                 node_cy = snd (centre pg el), node_idx = i,
                                 has_handlers = False\<rparr>)
                     (enumerate 0 (take 140 (query pg)));
            st1 = st\<lparr>nodesRef := ns, linksRef := build_links (maxLinkDistance p) ns,
                     rebuilds := Suc (rebuilds st)\<rparr>
        in updatePositions pg st1))"

definition node_events :: "string list" where
  "node_events = [''mouseenter'', ''focus'', ''mouseleave'', ''blur'']"

text \<open>\<open>attachNodeListeners\<close>: four listeners on the element of every node object.\<close>

definition attachNodeListeners :: "co_state \<Rightarrow> co_state" where
  "attachNodeListeners st =
     st\<lparr>nodesRef := map (\<lambda>n. n\<lparr>has_handlers := True\<rparr>) (nodesRef st),
        node_listeners := node_listeners st
           @ concat (map (\<lambda>n. map (\<lambda>e. (node_el n, e)) node_events) (nodesRef st))\<rparr>"

text \<open>
  \<open>detachNodeListeners\<close>: for every node object now in \<open>nodesRef\<close>, the listeners whose
  handlers the object carries are removed; an object without them removes nothing.
\<close>

definition detachNodeListeners :: "co_state \<Rightarrow> co_state" where
  "detachNodeListeners st =
     st\<lparr>nodesRef := map (\<lambda>n. n\<lparr>has_handlers := False\<rparr>) (nodesRef st),
        node_listeners :=
          foldl (\<lambda>ls l. remove1 l ls) (node_listeners st)
            (concat (map (\<lambda>n. if has_handlers n then map (\<lambda>e. (node_el n, e)) node_events
                                else []) (nodesRef st)))\<rparr>"

definition co_request_frame :: "co_callback \<Rightarrow> co_state \<Rightarrow> co_state" where
  "co_request_frame cb st =
     st\<lparr>co_frames := co_frames st @ [(co_next_handle st, cb)],
        co_next_handle := Suc (co_next_handle st)\<rparr>"

definition co_set_timer :: "co_callback \<Rightarrow> co_state \<Rightarrow> co_state" where
  "co_set_timer cb st =
     st\<lparr>co_timers := co_timers st @ [(co_next_handle st, cb)],
        co_next_handle := Suc (co_next_handle st)\<rparr>"

definition co_window_listeners :: "(string \<times> string) list" where
  "co_window_listeners =
    [(''mousemove'', ''onPointerMove''), (''touchmove'', ''onPointerMove''),
     (''resize'', ''scheduleRecalc''), (''scroll'', ''scheduleRecalc'')]"

text \<open>The body of the effect, once mounted and with the overlay element present.\<close>

definition co_mount :: "co_props \<Rightarrow> page \<Rightarrow> co_state \<Rightarrow> co_state" where
  "co_mount p pg st =
    (let st1 = rebuild p pg st;
         st2 = co_set_timer TimeoutRebuild (co_set_timer TimeoutRebuild st1);
         st3 = attachNodeListeners st2;
         st4 = st3\<lparr>co_listeners := co_listeners st3 @ co_window_listeners, pending := False,
                  mo_connected := True\<rparr>;
         st5 = (co_request_frame RafLoop st4)\<lparr>co_rafRef := co_next_handle st4\<rparr>;
         st6 = (co_set_timer IntervalUpdate st5)\<lparr>intervalId := co_next_handle st5\<rparr>
     in st6)"

text \<open>The function the effect returns.\<close>

definition co_cleanup :: "co_state \<Rightarrow> co_state" where
  "co_cleanup st =
    (let st1 = st\<lparr>co_frames := filter (\<lambda>f. fst f \<noteq> co_rafRef st) (co_frames st)\<rparr>;
         st2 = detachNodeListeners st1;
         st3 = st2\<lparr>co_listeners := foldl (\<lambda>ls l. remove1 l ls) (co_listeners st2)
                                         co_window_listeners\<rparr>;
         st4 = st3\<lparr>mo_connected := False\<rparr>
     in st4\<lparr>co_timers := filter (\<lambda>t. fst t \<noteq> intervalId st4) (co_timers st4)\<rparr>)"

text \<open>The callback of the \<open>MutationObserver\<close>.\<close>

definition on_mutation :: "co_state \<Rightarrow> co_state" where
  "on_mutation st =
    (if rebuildScheduled st then st
     else co_request_frame MoRebuild (st\<lparr>rebuildScheduled := True\<rparr>))"

definition scheduleRecalc :: "co_state \<Rightarrow> co_state" where
  "scheduleRecalc st =
    (if pending st then st else co_request_frame RecalcRebuild (st\<lparr>pending := True\<rparr>))"

text \<open>
  What a callback does when the browser runs it. The counter \<open>observer_rebuilds\<close> is not
  in the source: it counts the rebuilds that ran from the frame callback of the
  \<open>MutationObserver\<close>, as \<open>rebuilds\<close> counts those that ran from anywhere.
\<close>

fun co_call :: "co_props \<Rightarrow> page \<Rightarrow> co_callback \<Rightarrow> co_state \<Rightarrow> co_state" where
  "co_call p pg RafLoop st =
     (if \<not> svg_present st then st
      else (co_request_frame RafLoop st)\<lparr>co_rafRef := co_next_handle st\<rparr>)"
| "co_call p pg MoRebuild st =
     (rebuild p pg (st\<lparr>rebuildScheduled := False\<rparr>))
       \<lparr>observer_rebuilds :=
          (if svg_present st then Suc (observer_rebuilds st) else observer_rebuilds st)\<rparr>"
| "co_call p pg RecalcRebuild st = rebuild p pg (st\<lparr>pending := False\<rparr>)"
| "co_call p pg TimeoutRebuild st = rebuild p pg st"
| "co_call p pg IntervalUpdate st = updatePositions pg st"

fun co_run_frames :: "co_props \<Rightarrow> page \<Rightarrow> (nat \<times> co_callback) list \<Rightarrow> co_state \<Rightarrow> co_state" where
  "co_run_frames p pg [] st = st"
| "co_run_frames p pg (f # fs) st =
     (if f \<in> set (co_frames st)
      then co_run_frames p pg fs (co_call p pg (snd f) (st\<lparr>co_frames := removeAll f (co_frames st)\<rparr>))
      else co_run_frames p pg fs st)"

text \<open>
  What the browser can do: deliver a mutation to the observer while it is connected, fire
  \<open>resize\<close> or \<open>scroll\<close>, move the pointer, run the pending frame callbacks, fire a timer
  (a timeout fires once, the interval stays), or detach the ref of the overlay element, as
  React does when the component unmounts.
\<close>

datatype co_event =
    CoMutation
  | CoWindow
  | CoPointer real real
  | CoTick page
  | CoTimer nat page
  | CoDetachRef

fun co_step :: "co_props \<Rightarrow> co_event \<Rightarrow> co_state \<Rightarrow> co_state" where
  "co_step p CoMutation st = (if mo_connected st then on_mutation st else st)"
| "co_step p CoWindow st =
     (if (''resize'', ''scheduleRecalc'') \<in> set (co_listeners st)
         \<or> (''scroll'', ''scheduleRecalc'') \<in> set (co_listeners st)
      then scheduleRecalc st else st)"
| "co_step p (CoPointer x y) st =
     (if ((''mousemove'', ''onPointerMove'') \<in> set (co_listeners st)
          \<or> (''touchmove'', ''onPointerMove'') \<in> set (co_listeners st)) \<and> svg_present st
      then st\<lparr>co_pointer := Some (x, y)\<rparr> else st)"
| "co_step p (CoTick pg) st = co_run_frames p pg (co_frames st) st"
| "co_step p (CoTimer h pg) st =
     (case map_of (co_timers st) h of
        None \<Rightarrow> st
      | Some TimeoutRebuild \<Rightarrow>
          co_call p pg TimeoutRebuild (st\<lparr>co_timers := filter (\<lambda>t. fst t \<noteq> h) (co_timers st)\<rparr>)
      | Some cb \<Rightarrow> co_call p pg cb st)"
| "co_step p CoDetachRef st = st\<lparr>svg_present := False\<rparr>"

fun co_run :: "co_props \<Rightarrow> co_event list \<Rightarrow> co_state \<Rightarrow> co_state" where
  "co_run p [] st = st"
| "co_run p (e # es) st = co_run p es (co_step p e st)"

section \<open>The particle loader (DThreeLoader)\<close>

record loader_props =
  ld_size :: real
  particleCount :: real
  assembleMs :: real
  holdMs :: real
  disperseMs :: real
  ld_loop :: bool

definition loader_default_props :: loader_props where
  "loader_default_props =
    \<lparr>ld_size = 280, particleCount = 900, assembleMs = 900, holdMs = 700, disperseMs = 700,
     ld_loop = True\<rparr>"

datatype stage = Idle | Assemble | Hold | Disperse

text \<open>What the container \<open>div\<close> holds: the static SVG of the render, or the canvas of the
  WebGL renderer.\<close>

datatype dom_child = FallbackSvg | RendererCanvas

text \<open>
  The state of one run of the effect. \<open>init_pending\<close> says that \<open>initThree\<close> was called
  and waits for its dynamic imports; \<open>three_loaded\<close> that the imports resolved and the
  renderer was created; \<open>targets_sampled\<close> that the points of the shape were sampled.
  \<open>ld_requests\<close> counts the calls of \<open>requestAnimationFrame\<close>.
\<close>

record loader_state =
  ld_mounted :: bool
  ld_raf :: "nat option"
  ld_running :: bool
  ld_cleanup_set :: bool
  ld_stage :: stage
  ld_stageStart :: real
  init_pending :: bool
  three_loaded :: bool
  targets_sampled :: bool
  container :: "dom_child list"
  ld_frames :: "nat list"
  ld_next_handle :: nat
  ld_requests :: nat
  ld_listeners :: "(string \<times> string) list"

text \<open>The component as React renders it: the container with the fallback SVG inside.\<close>

definition loader_render :: loader_state where
  "loader_render =
    \<lparr>ld_mounted = True, ld_raf = None, ld_running = False, ld_cleanup_set = False,
     ld_stage = Idle, ld_stageStart = 0, init_pending = False, three_loaded = False,
     targets_sampled = False, container = [FallbackSvg], ld_frames = [],
     ld_next_handle = 1, ld_requests = 0, ld_listeners = []\<rparr>"

text \<open>\<open>typeof window !== 'undefined' && window.matchMedia && window.matchMedia(...).matches\<close>\<close>

definition prefersReduced :: "device \<Rightarrow> bool" where
  "prefersReduced d \<longleftrightarrow> has_window d \<and> has_matchMedia d \<and> reduced_motion d"

text \<open>The body of the effect: \<open>initThree\<close> is started unless motion is to be reduced.\<close>

definition loader_effect :: "device \<Rightarrow> loader_state \<Rightarrow> loader_state" where
  "loader_effect d st =
    (if has_window d \<and> \<not> prefersReduced d then st\<lparr>init_pending := True\<rparr> else st)"

definition ld_request_frame :: "loader_state \<Rightarrow> loader_state" where
  "ld_request_frame st =
     st\<lparr>ld_raf := Some (ld_next_handle st), ld_frames := ld_frames st @ [ld_next_handle st],
        ld_next_handle := Suc (ld_next_handle st), ld_requests := Suc (ld_requests st)\<rparr>"

text \<open>
  \<open>initThree\<close> after its imports: the renderer, the container emptied and given the
  canvas, the targets sampled from the shape, the buffers, the \<open>resize\<close> listener, the
  first frame request, the cleanup stored on the ref. Without a container it returns after
  creating the renderer.
\<close>

definition initThree :: "bool \<Rightarrow> real \<Rightarrow> loader_state \<Rightarrow> loader_state" where
  "initThree container_present now st =
    (let st1 = st\<lparr>init_pending := False, three_loaded := True\<rparr>
     in if \<not> container_present then st1
        else
          (let st2 = st1\<lparr>container := [RendererCanvas], targets_sampled := True,
                        ld_listeners := ld_listeners st1 @ [(''resize'', ''handleResize'')],
                        ld_stage := Idle, ld_stageStart := now, ld_running := True\<rparr>
           in (ld_request_frame st2)\<lparr>ld_cleanup_set := True\<rparr>))"

definition ld_cancel :: "loader_state \<Rightarrow> loader_state" where
  "ld_cancel st =
    (case ld_raf st of None \<Rightarrow> st
     | Some h \<Rightarrow> st\<lparr>ld_frames := removeAll h (ld_frames st)\<rparr>)"

text \<open>
  \<open>animate(now)\<close>: the stage machine and the frame requests. \<open>elapsed\<close> is computed once,
  before the step from idle. The interpolation of the particle positions is not part of
  the model. \<open>render_ok\<close> is false when \<open>renderer.render\<close> throws.
\<close>

definition ld_animate :: "loader_props \<Rightarrow> real \<Rightarrow> bool \<Rightarrow> loader_state \<Rightarrow> loader_state" where
  "ld_animate p now render_ok st =
    (if \<not> ld_mounted st then st
     else
       (let st1 = ld_request_frame st;
            elapsed = now - ld_stageStart st1;
            st2 = (if ld_stage st1 = Idle \<and> elapsed > 220
                   then st1\<lparr>ld_stage := Assemble, ld_stageStart := now\<rparr> else st1);
            st3 = (if ld_stage st2 = Assemble \<and> elapsed \<ge> assembleMs p
                   then st2\<lparr>ld_stage := Hold, ld_stageStart := now\<rparr>
                   else if ld_stage st2 = Hold \<and> elapsed \<ge> holdMs p
                   then st2\<lparr>ld_stage := Disperse, ld_stageStart := now\<rparr>
                   else if ld_stage st2 = Disperse \<and> elapsed \<ge> disperseMs p
                   then (if ld_loop p then st2\<lparr>ld_stage := Idle, ld_stageStart := now\<rparr>
                         else (ld_cancel st2)\<lparr>ld_raf := None, ld_running := False\<rparr>)
                   else st2)
        in if render_ok then st3 else (ld_cancel st3)\<lparr>ld_raf := None\<rparr>))"

text \<open>The function the effect returns, with the cleanup \<open>initThree\<close> stored, if any.\<close>

definition loader_cleanup :: "loader_state \<Rightarrow> loader_state" where
  "loader_cleanup st =
    (let st1 = st\<lparr>ld_mounted := False\<rparr>
     in if ld_cleanup_set st1
        then (ld_cancel (st1\<lparr>ld_listeners := remove1 (''resize'', ''handleResize'')
                                                (ld_listeners st1)\<rparr>))
               \<lparr>container := removeAll RendererCanvas (container st1)\<rparr>
        else st1)"

datatype loader_event =
    LdImportsResolved bool real
  | LdImportsFailed
  | LdTick real bool
  | LdResize
  | LdCleanup

fun ld_run_frames :: "loader_props \<Rightarrow> real \<Rightarrow> bool \<Rightarrow> nat list \<Rightarrow> loader_state \<Rightarrow> loader_state" where
  "ld_run_frames p now ok [] st = st"
| "ld_run_frames p now ok (f # fs) st =
     (if f \<in> set (ld_frames st)
      then ld_run_frames p now ok fs
             (ld_animate p now ok (st\<lparr>ld_frames := removeAll f (ld_frames st)\<rparr>))
      else ld_run_frames p now ok fs st)"

text \<open>
  The dynamic imports resolve or fail only for an \<open>initThree\<close> that was started; the
  \<open>resize\<close> handler resizes the renderer, which is no state of the model.
\<close>

fun loader_step :: "loader_props \<Rightarrow> loader_event \<Rightarrow> loader_state \<Rightarrow> loader_state" where
  "loader_step p (LdImportsResolved cp now) st =
     (if init_pending st then initThree cp now st else st)"
| "loader_step p LdImportsFailed st = st\<lparr>init_pending := False\<rparr>"
| "loader_step p (LdTick now ok) st = ld_run_frames p now ok (ld_frames st) st"
| "loader_step p LdResize st = st"
| "loader_step p LdCleanup st = loader_cleanup st"

fun loader_run :: "loader_props \<Rightarrow> loader_event list \<Rightarrow> loader_state \<Rightarrow> loader_state" where
  "loader_run p [] st = st"
| "loader_run p (e # es) st = loader_run p es (loader_step p e st)"

section \<open>The contact form (Contact.jsx)\<close>

text \<open>
  A string is the list of its code units, here below 256. White space, for \<open>trim\<close> and
  for \<open>\s\<close>, is then tab, line feed, vertical tab, form feed, carriage return, space and
  the no-break space.
\<close>

definition is_space :: "char \<Rightarrow> bool" where
  "is_space c \<longleftrightarrow> (of_char c :: nat) \<in> {9, 10, 11, 12, 13, 32, 160}"

definition trim :: "string \<Rightarrow> string" where
  "trim s = rev (dropWhile is_space (rev (dropWhile is_space s)))"

text \<open>
  The pieces the pattern of \<open>validate\<close> is made of: the class \<open>[^\s@]\<close> and a literal
  character, each once or (\<open>+\<close>) once or more.
\<close>

datatype re_atom = NotSpaceAt | Lit char

datatype re_item = One re_atom | Plus re_atom

fun atom_ok :: "re_atom \<Rightarrow> char \<Rightarrow> bool" where
  "atom_ok NotSpaceAt c = (\<not> is_space c \<and> c \<noteq> CHR ''@'')"
| "atom_ok (Lit a) c = (c = a)"

text \<open>A match of the whole string (the pattern is anchored at both ends), backtracking
  over the length each \<open>+\<close> takes.\<close>

fun re_match :: "re_item list \<Rightarrow> string \<Rightarrow> bool" where
  "re_match [] s = (s = [])"
| "re_match (One a # rs) [] = False"
| "re_match (One a # rs) (c # cs) = (atom_ok a c \<and> re_match rs cs)"
| "re_match (Plus a # rs) [] = False"
| "re_match (Plus a # rs) (c # cs) =
     (atom_ok a c \<and> (re_match rs cs \<or> re_match (Plus a # rs) cs))"

text \<open>\<open>/^[^\s@]+@[^\s@]+\.[^\s@]+$/\<close>\<close>

definition email_re :: "re_item list" where
  "email_re = [Plus NotSpaceAt, One (Lit CHR ''@''), Plus NotSpaceAt, One (Lit CHR ''.''),
               Plus NotSpaceAt]"

record form =
  name :: string
  email :: string
  subject :: string
  message :: string
  honey :: string

definition empty_form :: form where
  "empty_form = \<lparr>name = [], email = [], subject = [], message = [], honey = []\<rparr>"

text \<open>\<open>validate\<close>: the error object, as the list of its entries in insertion order.\<close>

definition validate :: "form \<Rightarrow> (string \<times> string) list" where
  "validate v =
    (if trim (name v) = [] then [(''name'', ''Please enter your name'')] else [])
    @ (if trim (email v) = [] then [(''email'', ''Please enter your email'')]
       else if \<not> re_match email_re (trim (email v))
       then [(''email'', ''Please enter a valid email'')] else [])
    @ (if trim (message v) = [] \<or> length (trim (message v)) < 8
       then [(''message'', ''Message must be at least 8 characters'')] else [])
    @ (if honey v \<noteq> [] then [(''honey'', ''Spam detected'')] else [])"

text \<open>\<open>JSON.stringify\<close> of an object whose values are strings.\<close>

definition hex_digit :: "nat \<Rightarrow> char" where
  "hex_digit n = ''0123456789abcdef'' ! (n mod 16)"

definition json_char :: "char \<Rightarrow> string" where
  "json_char c =
    (if c = CHR ''\"'' then [CHR 0x5C, CHR ''\"'']
     else if c = CHR 0x5C then [CHR 0x5C, CHR 0x5C]
     else if c = CHR 0x08 then [CHR 0x5C, CHR ''b'']
     else if c = CHR 0x09 then [CHR 0x5C, CHR ''t'']
     else if c = CHR 0x0A then [CHR 0x5C, CHR ''n'']
     else if c = CHR 0x0C then [CHR 0x5C, CHR ''f'']
     else if c = CHR 0x0D then [CHR 0x5C, CHR ''r'']
     else if (of_char c :: nat) < 32
     then [CHR 0x5C, CHR ''u'', CHR ''0'', CHR ''0'', hex_digit (of_char c div 16),
           hex_digit (of_char c)]
     else [c])"

definition json_string :: "string \<Rightarrow> string" where
  "json_string s = [CHR ''\"''] @ concat (map json_char s) @ [CHR ''\"'']"

fun json_members :: "(string \<times> string) list \<Rightarrow> string" where
  "json_members [] = []"
| "json_members [(k, v)] = json_string k @ '':'' @ json_string v"
| "json_members ((k, v) # kvs) = json_string k @ '':'' @ json_string v @ '','' @ json_members kvs"

definition JSON_stringify :: "(string \<times> string) list \<Rightarrow> string" where
  "JSON_stringify obj = ''{'' @ json_members obj @ ''}''"

record request =
  req_url :: string
  req_method :: string
  req_headers :: "(string \<times> string) list"
  req_body :: string

text \<open>
  What \<open>fetch\<close> and the reading of the answer come to: a rejected promise, an answer
  whose body is not JSON (with its text), or a JSON answer with \<open>res.ok\<close>, the status,
  and the fields \<open>ok\<close>, \<open>error\<close> and \<open>message\<close> of the body where present.
\<close>

datatype response =
    NetworkFailure
  | NonJson string
  | Json bool nat "bool option" "string option" "string option"

text \<open>
  The status line under the form: a validation message, the thanks after a send, or one
  of the error texts of a failed send.
\<close>

datatype status =
    ValidationError string
  | ThanksSent
  | NetworkError
  | NonJsonResponse string
  | ServerError string
  | ServerReturned nat

record contact_state =
  cform :: form
  sending :: bool
  cstatus :: "status option"
  cerrors :: "(string \<times> string) list"
  requests :: "request list"
  confetti :: nat

definition contact_initial :: contact_state where
  "contact_initial =
    \<lparr>cform = empty_form, sending = False, cstatus = None, cerrors = [], requests = [],
     confetti = 0\<rparr>"

text \<open>\<open>CONTACT_URL\<close>: the configured base with \<open>contacts\<close> appended.\<close>

definition CONTACT_URL :: "string \<Rightarrow> string" where
  "CONTACT_URL base = base @ ''contacts''"

definition payload :: "form \<Rightarrow> (string \<times> string) list" where
  "payload f =
    [(''name'', name f), (''email'', email f), (''subject'', subject f),
     (''message'', message f)]"

text \<open>\<open>data?.error || data?.message || `Server returned ${res.status}`\<close>\<close>

definition server_error :: "nat \<Rightarrow> string option \<Rightarrow> string option \<Rightarrow> status" where
  "server_error code err msg =
    (case err of Some e \<Rightarrow> (if e \<noteq> [] then ServerError e
                            else (case msg of Some m \<Rightarrow> (if m \<noteq> [] then ServerError m
                                                           else ServerReturned code)
                                  | None \<Rightarrow> ServerReturned code))
     | None \<Rightarrow> (case msg of Some m \<Rightarrow> (if m \<noteq> [] then ServerError m else ServerReturned code)
                | None \<Rightarrow> ServerReturned code))"

text \<open>
  \<open>handleSubmit\<close>: validation first; with any error the first message becomes the status
  and the function returns. Otherwise one POST is made, and the answer \<open>resp\<close> decides
  the status. \<open>requests\<close> logs the calls of \<open>fetch\<close>.
\<close>

definition handleSubmit :: "string \<Rightarrow> response \<Rightarrow> contact_state \<Rightarrow> contact_state" where
  "handleSubmit base resp st =
    (let st1 = st\<lparr>cstatus := None\<rparr>;
         errs = validate (cform st1);
         st2 = st1\<lparr>cerrors := errs\<rparr>
     in if errs \<noteq> [] then
          st2\<lparr>cstatus := Some (ValidationError
                 (case find (\<lambda>t. t \<noteq> []) (map snd errs) of Some t \<Rightarrow> t
                  | None \<Rightarrow> ''Validation error''))\<rparr>
        else
          (let st3 = st2\<lparr>sending := True\<rparr>;
               st4 = st3\<lparr>requests := requests st3 @
                        [\<lparr>req_url = CONTACT_URL base, req_method = ''POST'',
                          req_headers = [(''Content-Type'', ''application/json'')],
                          req_body = JSON_stringify (payload (cform st3))\<rparr>]\<rparr>;
               st5 = (case resp of
                        NetworkFailure \<Rightarrow> st4\<lparr>cstatus := Some NetworkError\<rparr>
                      | NonJson t \<Rightarrow> st4\<lparr>cstatus := Some (NonJsonResponse t)\<rparr>
                      | Json res_ok code data_ok err msg \<Rightarrow>
                          (if res_ok \<and> (case data_ok of None \<Rightarrow> True | Some b \<Rightarrow> b)
                           then st4\<lparr>cstatus := Some ThanksSent, cform := empty_form,
                                   confetti := confetti st4 + 18\<rparr>
                           else st4\<lparr>cstatus := Some (server_error code err msg)\<rparr>))
           in st5\<lparr>sending := False\<rparr>))"

section \<open>Predicates and sample inputs of the statements\<close>

text \<open>A star is seeded inside the canvas.\<close>

definition in_area :: "real \<Rightarrow> real \<Rightarrow> star \<Rightarrow> bool" where
  "in_area w h s \<longleftrightarrow> 0 \<le> star_x s \<and> star_x s \<le> w \<and> 0 \<le> star_y s \<and> star_y s \<le> h"

text \<open>A star is within the margin of 20 that \<open>draw\<close> wraps at.\<close>

definition in_margin :: "real \<Rightarrow> real \<Rightarrow> star \<Rightarrow> bool" where
  "in_margin w h s \<longleftrightarrow>
     - 20 \<le> star_x s \<and> star_x s \<le> w + 20 \<and> - 20 \<le> star_y s \<and> star_y s \<le> h + 20"

text \<open>The canvas is at least 1 by 1 and every star is within the margin.\<close>

definition margin_inv :: "stars_state \<Rightarrow> bool" where
  "margin_inv st \<longleftrightarrow>
     1 \<le> dims_w st \<and> 1 \<le> dims_h st
     \<and> (\<forall>s \<in> set (stars st). in_margin (dims_w st) (dims_h st) s)"

text \<open>A blob is within its own radius of the container.\<close>

definition blob_in_range :: "real \<Rightarrow> real \<Rightarrow> blob \<Rightarrow> bool" where
  "blob_in_range w h b \<longleftrightarrow>
     - blob_r b \<le> blob_x b \<and> blob_x b \<le> w + blob_r b
     \<and> - blob_r b \<le> blob_y b \<and> blob_y b \<le> h + blob_r b"

text \<open>The container is at least 1 by 1, no radius is negative, every blob is in range.\<close>

definition range_inv :: "mb_state \<Rightarrow> bool" where
  "range_inv st \<longleftrightarrow>
     1 \<le> size_w st \<and> 1 \<le> size_h st
     \<and> (\<forall>b \<in> set (blobs st). 0 \<le> blob_r b \<and> blob_in_range (size_w st) (size_h st) b)"

text \<open>Sample inputs: the default props without clusters, and a canvas of 100 by 100.\<close>

definition cex_props :: props where
  "cex_props = default_props\<lparr>clusters := False\<rparr>"

definition cex_layout :: layout where
  "cex_layout = \<lparr>canvas_left = 0, canvas_top = 0, canvas_width = 100, canvas_height = 100,
                  matches = (\<lambda>_. [])\<rparr>"

text \<open>A star at \<open>x\<close> drifting left at the greatest speed, with a radius of a seeded star.\<close>

definition drifting :: "real \<Rightarrow> star \<Rightarrow> bool" where
  "drifting x s \<longleftrightarrow> star_x s = x \<and> star_vx s = - 0.006 \<and> star_r s \<le> 0.63"

text \<open>Sample devices: an ordinary one, one that asks for reduced motion, one of low memory.\<close>

definition device_plain :: device where
  "device_plain =
    \<lparr>has_window = True, deviceMemory = Some 8, hardwareConcurrency = Some 8,
     has_matchMedia = True, reduced_motion = False, has_ResizeObserver = True\<rparr>"

text \<open>
  The wrap as the specification words it: the position taken modulo the width of the band from \<open>lo\<close>
  to \<open>hi\<close>, so that what a star overshoots one edge by, it has on re-entry at the other.
\<close>

definition wrap_modulo :: "real \<Rightarrow> real \<Rightarrow> real \<Rightarrow> real" where
  "wrap_modulo lo hi x = x - (hi - lo) * of_int \<lfloor>(x - lo) / (hi - lo)\<rfloor>"

text \<open>A star of the far layer at \<open>x\<close>, as seeded by draws of 0, about to cross the left margin.\<close>

definition edge_star :: "real \<Rightarrow> star" where
  "edge_star x =
    \<lparr>star_id = (''far'', 0, 0), star_x = x, star_y = 100, baseX = x, baseY = 100,
     star_r = 0.245, star_depth = 0.28, star_glow = 0.28, star_color = [255, 200, 170],
     brightness = 0.6, twinkleSpeed = 0.3825, twinklePhase = 0,
     star_vx = - 0.006, star_vy = 0, isBright = False\<rparr>"

text \<open>The refs with that one star on a canvas of 1000 by 800.\<close>

definition edge_state :: "real \<Rightarrow> stars_state" where
  "edge_state x = (initial_refs 0)\<lparr>dims_w := 1000, dims_h := 800, stars := [edge_star x]\<rparr>"

definition device_reduced :: device where
  "device_reduced = device_plain\<lparr>reduced_motion := True\<rparr>"

definition device_low_memory :: device where
  "device_low_memory = device_plain\<lparr>deviceMemory := Some 2\<rparr>"

text \<open>The props the page passes to the metaballs (page.js).\<close>

definition page_props :: mb_props where
  "page_props =
    \<lparr>mb_count = 6, mb_color = ''255,140,90'', minR = 60, maxR = 180, mb_speed = 30,
     mb_blur = 16, mb_z = - 1, mb_fixed = False, autoReduce = True, mb_debug = False\<rparr>"

text \<open>The loader has started nothing: nothing loaded, sampled, requested or attached.\<close>

definition loader_quiet :: "loader_state \<Rightarrow> bool" where
  "loader_quiet st \<longleftrightarrow>
     \<not> init_pending st \<and> \<not> three_loaded st \<and> \<not> targets_sampled st \<and> \<not> ld_cleanup_set st
     \<and> container st = [FallbackSvg] \<and> ld_frames st = [] \<and> ld_requests st = 0
     \<and> ld_listeners st = []"

text \<open>Sample forms: one with the email \<open>not-an-email\<close>, one that passes validation.\<close>

definition sample_form :: form where
  "sample_form =
    \<lparr>name = ''Ada'', email = ''not-an-email'', subject = ''Hello'',
     message = ''A message long enough'', honey = []\<rparr>"

definition good_form :: form where
  "good_form =
    \<lparr>name = ''Ada'', email = ''ada@example.org'', subject = ''Hello'',
     message = ''A message long enough'', honey = []\<rparr>"

text \<open>The frame callbacks that end in \<open>rebuild\<close>.\<close>

definition is_rebuild :: "co_callback \<Rightarrow> bool" where
  "is_rebuild cb \<longleftrightarrow> cb = MoRebuild \<or> cb = RecalcRebuild"

text \<open>The rebuilds the observer has waiting among the pending frame callbacks.\<close>

definition mo_pending :: "co_state \<Rightarrow> nat" where
  "mo_pending st = length (filter (\<lambda>f. snd f = MoRebuild) (co_frames st))"

text \<open>
  What holds of every state the overlay reaches: the handles of the pending callbacks
  differ and are below the next handle, and the observer has one rebuild waiting exactly
  when \<open>rebuildScheduled\<close> is set.
\<close>

definition co_inv :: "co_state \<Rightarrow> bool" where
  "co_inv st \<longleftrightarrow>
     distinct (map fst (co_frames st))
     \<and> list_all (\<lambda>f. fst f < co_next_handle st) (co_frames st)
     \<and> mo_pending st = (if rebuildScheduled st then 1 else 0)"

text \<open>
  The rebuilds that others than the observer have waiting among the pending frame
  callbacks: that of a resize or scroll. (The rebuild of a timeout is counted too, should
  one be among the frame callbacks; the overlay puts it among the timers only.)
\<close>

definition other_rebuilds_pending :: "co_state \<Rightarrow> nat" where
  "other_rebuilds_pending st =
     length (filter (\<lambda>f. snd f = RecalcRebuild \<or> snd f = TimeoutRebuild) (co_frames st))"

text \<open>A page with one node element, and the overlay mounted on it from fresh refs.\<close>

definition one_node_page :: page where
  "one_node_page = \<lparr>query = [7], centre = (\<lambda>_. (10, 10))\<rparr>"

definition mounted_overlay :: co_state where
  "mounted_overlay = co_mount co_default_props one_node_page co_initial_refs"


text \<open>
  The mounted starfield, and the mounted metaballs: one frame callback is pending, the
  one the ref names, and the listeners are those of the mount.
\<close>

definition stars_live :: "stars_state \<Rightarrow> bool" where
  "stars_live st \<longleftrightarrow> frames st = [rafRef st] \<and> listeners st = stars_listeners"

definition mb_live :: "device \<Rightarrow> mb_state \<Rightarrow> bool" where
  "mb_live d st \<longleftrightarrow>
     mb_frames st = [mb_rafRef st] \<and> mb_rafRef st \<noteq> 0 \<and> mb_next_handle st \<noteq> 0
     \<and> resizeObserverRef st \<and> observing st = has_ResizeObserver d
     \<and> mb_listeners st = (if has_ResizeObserver d then [] else [(''resize'', ''onResize'')])
                           @ [(''visibilitychange'', ''handleVisibility'')]"

text \<open>
  The invariant of the overlay, with the timers being timeouts and the interval, the
  frame callbacks being the loop and the rebuilds of the observer and of
  \<open>scheduleRecalc\<close>, and the latter waiting exactly when \<open>pending\<close> is set.
\<close>

definition co_reach :: "co_state \<Rightarrow> bool" where
  "co_reach st \<longleftrightarrow>
     co_inv st
     \<and> list_all (\<lambda>t. snd t = TimeoutRebuild \<or> snd t = IntervalUpdate) (co_timers st)
     \<and> list_all (\<lambda>f. snd f = RafLoop \<or> snd f = MoRebuild \<or> snd f = RecalcRebuild)
          (co_frames st)
     \<and> length (filter (\<lambda>f. snd f = RecalcRebuild) (co_frames st))
         = (if pending st then 1 else 0)"

section \<open>Properties of the starfield and of the metaballs\<close>

subsection \<open>Seeding the stars\<close>

lemma fst_layer_stars_Suc:
  "fst (layer_stars p w h l rnd (Suc m) i k) =
     fst (make_star p w h l i rnd k)
       # fst (layer_stars p w h l rnd m (Suc i) (snd (make_star p w h l i rnd k)))"
  by (simp add: case_prod_beta Let_def)

lemma fst_all_layers_Cons:
  "fst (all_layers p w h cnt rnd (l # ls) k) =
     fst (layer_stars p w h l rnd (nat (max 1 (Math_round (cnt * layer_density l)))) 0 k)
       @ fst (all_layers p w h cnt rnd ls
               (snd (layer_stars p w h l rnd (nat (max 1 (Math_round (cnt * layer_density l)))) 0 k)))"
  by (simp add: case_prod_beta Let_def)

lemma layer_stars_length: "length (fst (layer_stars p w h l rnd m i k)) = m"
  by (induction m arbitrary: i k) (simp_all add: fst_layer_stars_Suc del: layer_stars.simps(2))

lemma layer_stars_all:
  assumes "\<And>i k. Q (fst (make_star p w h l i rnd k))"
  shows "s \<in> set (fst (layer_stars p w h l rnd m i k)) \<Longrightarrow> Q s"
proof (induction m arbitrary: i k)
  case 0
  then show ?case by simp
next
  case (Suc m)
  then show ?case using assms
    by (auto simp add: fst_layer_stars_Suc simp del: layer_stars.simps(2))
qed

lemma all_layers_all:
  assumes "\<And>l i k. l \<in> set ls \<Longrightarrow> Q (fst (make_star p w h l i rnd k))"
  shows "s \<in> set (fst (all_layers p w h cnt rnd ls k)) \<Longrightarrow> Q s"
  using assms
proof (induction ls arbitrary: k)
  case Nil
  then show ?case by simp
next
  case (Cons l ls)
  have "s \<in> set (fst (layer_stars p w h l rnd (nat (max 1 (Math_round (cnt * layer_density l)))) 0 k))
        \<Longrightarrow> Q s"
    using layer_stars_all[of Q p w h l rnd s] Cons.prems(2) by simp
  moreover have "\<And>k'. s \<in> set (fst (all_layers p w h cnt rnd ls k')) \<Longrightarrow> Q s"
    using Cons.IH Cons.prems(2) by simp
  ultimately show ?case using Cons.prems(1)
    by (auto simp add: fst_all_layers_Cons simp del: all_layers.simps(2))
qed

lemma all_layers_length:
  "length (fst (all_layers p w h cnt rnd ls k))
     = (\<Sum>l\<leftarrow>ls. nat (max 1 (Math_round (cnt * layer_density l))))"
  by (induction ls arbitrary: k)
     (simp_all add: fst_all_layers_Cons layer_stars_length del: all_layers.simps(2))

lemma all_layers_nonempty: "fst (all_layers p w h cnt rnd layers k) \<noteq> []"
proof -
  have "0 < length (fst (all_layers p w h cnt rnd layers k))"
    unfolding all_layers_length by (simp add: layers_def less_max_iff_disj)
  then show ?thesis by simp
qed

lemma make_star_in_area:
  assumes "unit_rng rnd" "0 \<le> w" "0 \<le> h"
  shows "in_area w h (fst (make_star p w h l i rnd k))"
proof -
  have r: "\<And>j. 0 \<le> rnd j \<and> rnd j \<le> 1" using assms(1) by (auto simp: unit_rng_def less_imp_le)
  have a: "\<And>j. 0 \<le> rnd j * w \<and> rnd j * w \<le> w"
    using r assms(2) by (simp add: mult_left_le_one_le)
  have b: "\<And>j. 0 \<le> rnd j * h \<and> rnd j * h \<le> h"
    using r assms(3) by (simp add: mult_left_le_one_le)
  show ?thesis
    using a b assms(2,3) by (simp add: make_star_def in_area_def Let_def split: prod.splits if_splits)
qed

lemma buildStars_fields:
  "stars (fst (buildStars p hc rnd k now st)) =
     sort_key star_depth
       (fst (all_layers p (dims_w st) (dims_h st)
              (star_count p (isLowEndDevice hc) (dims_w st) (dims_h st)) rnd layers k))"
  "shots (fst (buildStars p hc rnd k now st)) = []"
  "dims_w (fst (buildStars p hc rnd k now st)) = dims_w st"
  "dims_h (fst (buildStars p hc rnd k now st)) = dims_h st"
  "frames (fst (buildStars p hc rnd k now st)) = frames st"
  "listeners (fst (buildStars p hc rnd k now st)) = listeners st"
  "hidden (fst (buildStars p hc rnd k now st)) = hidden st"
  "rafRef (fst (buildStars p hc rnd k now st)) = rafRef st"
  "next_handle (fst (buildStars p hc rnd k now st)) = next_handle st"
  by (simp_all add: buildStars_def Let_def case_prod_beta)

lemma resize_fields:
  "dims_w (fst (resize p hc rnd k lay dpr now st)) = max 1 (of_int \<lfloor>canvas_width lay\<rfloor>)"
  "dims_h (fst (resize p hc rnd k lay dpr now st)) = max 1 (of_int \<lfloor>canvas_height lay\<rfloor>)"
  "shots (fst (resize p hc rnd k lay dpr now st)) = []"
  "frames (fst (resize p hc rnd k lay dpr now st)) = frames st"
  "listeners (fst (resize p hc rnd k lay dpr now st)) = listeners st"
  "hidden (fst (resize p hc rnd k lay dpr now st)) = hidden st"
  "rafRef (fst (resize p hc rnd k lay dpr now st)) = rafRef st"
  "next_handle (fst (resize p hc rnd k lay dpr now st)) = next_handle st"
  by (simp_all add: resize_def Let_def case_prod_beta updateExcludeRects_def buildStars_fields)

lemma resize_stars:
  "stars (fst (resize p hc rnd k lay dpr now st)) =
     sort_key star_depth
       (fst (all_layers p (max 1 (of_int \<lfloor>canvas_width lay\<rfloor>)) (max 1 (of_int \<lfloor>canvas_height lay\<rfloor>))
              (star_count p (isLowEndDevice hc) (max 1 (of_int \<lfloor>canvas_width lay\<rfloor>))
                 (max 1 (of_int \<lfloor>canvas_height lay\<rfloor>))) rnd layers k))"
  by (simp add: resize_def Let_def case_prod_beta updateExcludeRects_def buildStars_fields)

lemma request_frame_fields:
  "stars (request_frame st) = stars st"
  "shots (request_frame st) = shots st"
  "dims_w (request_frame st) = dims_w st"
  "dims_h (request_frame st) = dims_h st"
  "hidden (request_frame st) = hidden st"
  "lastTime (request_frame st) = lastTime st"
  "listeners (request_frame st) = listeners st"
  "frames (request_frame st) = frames st @ [next_handle st]"
  "rafRef (request_frame st) = next_handle st"
  "next_handle (request_frame st) = Suc (next_handle st)"
  by (simp_all add: request_frame_def)

lemma draw_fields:
  "stars (draw now st) =
     (if hidden st then stars st
      else map (move_star (dims_w st) (dims_h st) (min 40 (now - lastTime st))) (stars st))"
  "shots (draw now st) =
     (if hidden st then shots st else step_shots (min 40 (now - lastTime st)) (shots st))"
  "dims_w (draw now st) = dims_w st"
  "dims_h (draw now st) = dims_h st"
  "hidden (draw now st) = hidden st"
  "lastTime (draw now st) = now"
  "listeners (draw now st) = listeners st"
  "frames (draw now st) = frames st @ [next_handle st]"
  "rafRef (draw now st) = next_handle st"
  "next_handle (draw now st) = Suc (next_handle st)"
  by (simp_all add: draw_def Let_def request_frame_fields)

lemma mount_fields:
  "stars (fst (stars_mount p hc rnd k lay dpr now st)) = stars (fst (resize p hc rnd k lay dpr now st))"
  "shots (fst (stars_mount p hc rnd k lay dpr now st)) = []"
  "dims_w (fst (stars_mount p hc rnd k lay dpr now st)) = max 1 (of_int \<lfloor>canvas_width lay\<rfloor>)"
  "dims_h (fst (stars_mount p hc rnd k lay dpr now st)) = max 1 (of_int \<lfloor>canvas_height lay\<rfloor>)"
  "hidden (fst (stars_mount p hc rnd k lay dpr now st)) = hidden st"
  "lastTime (fst (stars_mount p hc rnd k lay dpr now st)) = now"
  "listeners (fst (stars_mount p hc rnd k lay dpr now st)) = listeners st @ stars_listeners"
  "frames (fst (stars_mount p hc rnd k lay dpr now st)) = frames st @ [next_handle st]"
  "rafRef (fst (stars_mount p hc rnd k lay dpr now st)) = next_handle st"
  by (simp_all add: stars_mount_def Let_def case_prod_beta request_frame_fields resize_fields)

lemma star_count_1000_800:
  "density p = 7 \<Longrightarrow> maxStars p = 280 \<Longrightarrow>
   star_count p lowEnd 1000 800 = (if lowEnd then 25 else 56)"
  by (simp add: star_count_def Math_round_def Let_def)

lemma layer_total_56: "(\<Sum>l\<leftarrow>layers. nat (max 1 (Math_round (56 * layer_density l)))) = 56"
  by (simp add: layers_def Math_round_def)

lemma layer_total_25: "(\<Sum>l\<leftarrow>layers. nat (max 1 (Math_round (25 * layer_density l)))) = 26"
  by (simp add: layers_def Math_round_def)

text \<open>
  C9. With density 7 and at most 280 stars, on an area of 1000 by 800, \<open>buildStars\<close>
  makes more than 0 and at most 280 stars (56, or 26 on a low-end device), each at a
  position within [0, 1000] x [0, 800], whatever the random draws.
\<close>

theorem seed_1000_800:
  assumes "unit_rng rnd" "density p = 7" "maxStars p = 280" "dims_w st = 1000" "dims_h st = 800"
  shows "0 < length (stars (fst (buildStars p hc rnd k now st)))
       \<and> length (stars (fst (buildStars p hc rnd k now st))) \<le> 280
       \<and> (\<forall>s \<in> set (stars (fst (buildStars p hc rnd k now st))).
            0 \<le> star_x s \<and> star_x s \<le> 1000 \<and> 0 \<le> star_y s \<and> star_y s \<le> 800)"
proof -
  let ?cnt = "star_count p (isLowEndDevice hc) 1000 800"
  let ?al = "all_layers p 1000 800 ?cnt rnd layers k"
  have st: "stars (fst (buildStars p hc rnd k now st)) = sort_key star_depth (fst ?al)"
    using assms(4,5) by (simp add: buildStars_fields)
  have len: "length (fst ?al) = (if isLowEndDevice hc then 26 else 56)"
    using star_count_1000_800[OF assms(2,3)] layer_total_56 layer_total_25
    by (simp add: all_layers_length)
  have pos: "\<And>s. s \<in> set (fst ?al) \<Longrightarrow> in_area 1000 800 s"
    using all_layers_all[of layers "in_area 1000 800" p 1000 800 rnd] make_star_in_area[OF assms(1)]
    by simp
  show ?thesis using st len pos by (auto simp: in_area_def)
qed

theorem seed_1000_800_witness:
  "unit_rng (\<lambda>_. 1 / 2) \<and> density default_props = 7 \<and> maxStars default_props = 280
   \<and> dims_w ((initial_refs 0)\<lparr>dims_w := 1000, dims_h := 800\<rparr>) = 1000
   \<and> dims_h ((initial_refs 0)\<lparr>dims_w := 1000, dims_h := 800\<rparr>) = 800
   \<and> 0 < length (stars (fst (buildStars default_props (Some 8) (\<lambda>_. 1 / 2) 0 0
                                ((initial_refs 0)\<lparr>dims_w := 1000, dims_h := 800\<rparr>))))
   \<and> length (stars (fst (buildStars default_props (Some 8) (\<lambda>_. 1 / 2) 0 0
                                ((initial_refs 0)\<lparr>dims_w := 1000, dims_h := 800\<rparr>)))) \<le> 280
   \<and> list_all (\<lambda>s. 0 \<le> star_x s \<and> star_x s \<le> 1000 \<and> 0 \<le> star_y s \<and> star_y s \<le> 800)
        (stars (fst (buildStars default_props (Some 8) (\<lambda>_. 1 / 2) 0 0
                       ((initial_refs 0)\<lparr>dims_w := 1000, dims_h := 800\<rparr>))))"
proof -
  have h1: "unit_rng (\<lambda>_. 1 / 2)" by (simp add: unit_rng_def)
  have h2: "density default_props = 7" by (simp add: default_props_def)
  have h3: "maxStars default_props = 280" by (simp add: default_props_def)
  have h4: "dims_w ((initial_refs 0)\<lparr>dims_w := 1000, dims_h := 800\<rparr>) = 1000" by simp
  have h5: "dims_h ((initial_refs 0)\<lparr>dims_w := 1000, dims_h := 800\<rparr>) = 800" by simp
  show ?thesis
    unfolding list_all_iff
    using h1 h2 h3 h4 h5 seed_1000_800[OF h1 h2 h3 h4 h5, of "Some 8" 0 0] by blast
qed

subsection \<open>What the events preserve\<close>

lemma run_frames_preserves:
  assumes "\<And>st fs. I st \<Longrightarrow> I (st\<lparr>frames := fs\<rparr>)"
      and "\<And>st. I st \<Longrightarrow> I (draw now st)"
  shows "I st \<Longrightarrow> I (run_frames now fs st)"
  by (induction fs arbitrary: st) (simp_all add: assms)

lemma stars_step_preserves:
  assumes "\<And>st fs. I st \<Longrightarrow> I (st\<lparr>frames := fs\<rparr>)"
      and "\<And>st now. I st \<Longrightarrow> I (draw now st)"
      and "\<And>st k lay dpr now. I (fst (resize p hc rnd k lay dpr now st))"
      and "\<And>st lay. I st \<Longrightarrow> I (updateExcludeRects p lay st)"
      and "\<And>st v. I st \<Longrightarrow> I (st\<lparr>lastPointer := v\<rparr>)"
      and "\<And>st v. I st \<Longrightarrow> I (st\<lparr>hidden := v\<rparr>)"
  shows "I (fst sk) \<Longrightarrow> I (fst (stars_step p hc rnd e sk))"
proof (cases sk)
  case (Pair st k)
  assume "I (fst sk)"
  then have i: "I st" using Pair by simp
  show ?thesis
  proof (cases e)
    case (Tick now)
    then show ?thesis using Pair i run_frames_preserves[of I now st "frames st"] assms(1,2) by simp
  next
    case (Resize lay dpr now)
    then show ?thesis using Pair i assms(3) by simp
  next
    case (Scroll lay)
    then show ?thesis using Pair i assms(4) by simp
  next
    case (PointerMove cx cy lay)
    then show ?thesis using Pair i assms(5) by simp
  next
    case (VisibilityChange hid)
    then show ?thesis using Pair i assms(6) by simp
  qed
qed

lemma stars_run_preserves:
  assumes "\<And>st fs. I st \<Longrightarrow> I (st\<lparr>frames := fs\<rparr>)"
      and "\<And>st now. I st \<Longrightarrow> I (draw now st)"
      and "\<And>st k lay dpr now. I (fst (resize p hc rnd k lay dpr now st))"
      and "\<And>st lay. I st \<Longrightarrow> I (updateExcludeRects p lay st)"
      and "\<And>st v. I st \<Longrightarrow> I (st\<lparr>lastPointer := v\<rparr>)"
      and "\<And>st v. I st \<Longrightarrow> I (st\<lparr>hidden := v\<rparr>)"
  shows "I (fst sk) \<Longrightarrow> I (fst (stars_run p hc rnd es sk))"
proof (induction es arbitrary: sk)
  case Nil
  then show ?case by simp
next
  case (Cons e es)
  have "I (fst (stars_step p hc rnd e sk))"
    using stars_step_preserves[of I p hc rnd sk e] assms Cons.prems by blast
  then show ?case using Cons.IH by simp
qed

subsection \<open>The wrap of a star\<close>

lemma drift_star_fields:
  "star_x (drift_star dt s) = star_x s + star_vx s * dt"
  "star_y (drift_star dt s) = star_y s + star_vy s * dt"
  "star_r (drift_star dt s) = star_r s"
  "star_vx (drift_star dt s) = star_vx s"
  "star_vy (drift_star dt s) = star_vy s"
  by (simp_all add: drift_star_def Let_def)

lemma wrap_star_fields:
  "star_x (wrap_star w h s) =
     (if star_x s < - 20 then w + 20 else if star_x s > w + 20 then - 20 else star_x s)"
  "star_y (wrap_star w h s) =
     (if star_y s < - 20 then h + 20 else if star_y s > h + 20 then - 20 else star_y s)"
  "star_r (wrap_star w h s) = star_r s"
  "star_vx (wrap_star w h s) = star_vx s"
  "star_vy (wrap_star w h s) = star_vy s"
  by (simp_all add: wrap_star_def Let_def)

lemma twinkle_fields:
  "star_x (twinkle dt s) = star_x s"
  "star_y (twinkle dt s) = star_y s"
  "star_r (twinkle dt s) = star_r s"
  "star_vx (twinkle dt s) = star_vx s"
  "star_vy (twinkle dt s) = star_vy s"
  by (simp_all add: twinkle_def)

lemma move_star_x:
  "star_x (move_star w h dt s) =
     (if star_x s + star_vx s * dt < - 20 then w + 20
      else if star_x s + star_vx s * dt > w + 20 then - 20
      else star_x s + star_vx s * dt)"
  by (simp add: move_star_def twinkle_fields wrap_star_fields drift_star_fields)

lemma move_star_y:
  "star_y (move_star w h dt s) =
     (if star_y s + star_vy s * dt < - 20 then h + 20
      else if star_y s + star_vy s * dt > h + 20 then - 20
      else star_y s + star_vy s * dt)"
  by (simp add: move_star_def twinkle_fields wrap_star_fields drift_star_fields)

lemma move_star_keeps:
  "star_r (move_star w h dt s) = star_r s"
  "star_vx (move_star w h dt s) = star_vx s"
  "star_vy (move_star w h dt s) = star_vy s"
  by (simp_all add: move_star_def twinkle_fields wrap_star_fields drift_star_fields)

lemma move_star_in_margin:
  "- 40 \<le> w \<Longrightarrow> - 40 \<le> h \<Longrightarrow> in_margin w h (move_star w h dt s)"
  by (simp add: in_margin_def move_star_x move_star_y)

lemma in_area_margin: "in_area w h s \<Longrightarrow> in_margin w h s"
  by (simp add: in_area_def in_margin_def)

lemma margin_inv_draw: "margin_inv st \<Longrightarrow> margin_inv (draw now st)"
  by (auto simp: margin_inv_def draw_fields move_star_in_margin)

lemma margin_inv_resize:
  assumes "unit_rng rnd"
  shows "margin_inv (fst (resize p hc rnd k lay dpr now st))"
proof -
  let ?w = "max 1 (of_int \<lfloor>canvas_width lay\<rfloor>) :: real"
  let ?h = "max 1 (of_int \<lfloor>canvas_height lay\<rfloor>) :: real"
  have "\<And>l i k. in_area ?w ?h (fst (make_star p ?w ?h l i rnd k))"
    using make_star_in_area[OF assms, of ?w ?h] by simp
  then have "\<And>s cnt. s \<in> set (fst (all_layers p ?w ?h cnt rnd layers k)) \<Longrightarrow> in_area ?w ?h s"
    using all_layers_all[of layers "in_area ?w ?h" p ?w ?h rnd] by blast
  then have "\<forall>s \<in> set (stars (fst (resize p hc rnd k lay dpr now st))). in_margin ?w ?h s"
    unfolding resize_stars using in_area_margin by auto
  then show ?thesis by (simp add: margin_inv_def resize_fields)
qed

lemma margin_inv_mount:
  assumes "unit_rng rnd"
  shows "margin_inv (fst (stars_mount p hc rnd k lay dpr now st))"
  using margin_inv_resize[OF assms, of p hc k lay dpr now st]
  by (simp add: margin_inv_def mount_fields resize_fields)

lemma stars_stay_in_margin:
  assumes "unit_rng rnd"
  shows "margin_inv (fst (stars_run p hc rnd es (stars_mount p hc rnd k lay dpr now st)))"
proof (rule stars_run_preserves[where I = margin_inv])
  show "margin_inv (fst (stars_mount p hc rnd k lay dpr now st))"
    by (rule margin_inv_mount[OF assms])
qed (simp_all add: margin_inv_def margin_inv_draw[unfolded margin_inv_def]
       margin_inv_resize[OF assms, unfolded margin_inv_def] updateExcludeRects_def)

subsection \<open>The wrap of a blob\<close>

lemma drift_blob_r: "blob_r (drift_blob w h dt b) = blob_r b"
  by (simp add: drift_blob_def Let_def)

lemma wrap_blob_fields:
  "blob_r (wrap_blob w h b) = blob_r b"
  "blob_x (wrap_blob w h b) =
     (if blob_x b < - blob_r b then w + blob_r b
      else if blob_x b > w + blob_r b then - blob_r b else blob_x b)"
  "blob_y (wrap_blob w h b) =
     (if blob_y b < - blob_r b then h + blob_r b
      else if blob_y b > h + blob_r b then - blob_r b else blob_y b)"
  by (simp_all add: wrap_blob_def Let_def)

lemma wrap_blob_in_range:
  "0 \<le> blob_r b \<Longrightarrow> 0 \<le> w \<Longrightarrow> 0 \<le> h \<Longrightarrow> blob_in_range w h (wrap_blob w h b)"
  by (simp add: blob_in_range_def wrap_blob_fields)

lemma move_blob_r: "blob_r (move_blob w h dt b) = blob_r b"
  by (simp add: move_blob_def wrap_blob_fields drift_blob_r)

lemma move_blob_in_range:
  "0 \<le> blob_r b \<Longrightarrow> 0 \<le> w \<Longrightarrow> 0 \<le> h \<Longrightarrow> blob_in_range w h (move_blob w h dt b)"
  by (simp add: move_blob_def wrap_blob_in_range drift_blob_r)

lemma make_blob_ok:
  assumes "unit_rng rnd" "0 \<le> minR p" "0 \<le> maxR p" "0 \<le> w" "0 \<le> h"
  shows "0 \<le> blob_r (make_blob p spd w h rnd k) \<and> blob_in_range w h (make_blob p spd w h rnd k)"
proof -
  have r: "\<And>j. 0 \<le> rnd j \<and> rnd j \<le> 1" using assms(1) by (auto simp: unit_rng_def less_imp_le)
  have "rnd k * (maxR p - minR p) + minR p = (1 - rnd k) * minR p + rnd k * maxR p"
    by (simp add: algebra_simps)
  moreover have "0 \<le> (1 - rnd k) * minR p + rnd k * maxR p"
    using r[of k] assms(2,3) by simp
  ultimately have r0: "0 \<le> blob_r (make_blob p spd w h rnd k)"
    by (simp add: make_blob_def Let_def)
  have a: "\<And>j. 0 \<le> rnd j * w \<and> rnd j * w \<le> w"
    using r assms(4) by (simp add: mult_left_le_one_le)
  have b: "\<And>j. 0 \<le> rnd j * h \<and> rnd j * h \<le> h"
    using r assms(5) by (simp add: mult_left_le_one_le)
  have "blob_x (make_blob p spd w h rnd k) = rnd (k + 1) * w"
       "blob_y (make_blob p spd w h rnd k) = rnd (k + 2) * h"
    by (simp_all add: make_blob_def Let_def)
  then have "blob_in_range w h (make_blob p spd w h rnd k)"
    using r0 a[of "k + 1"] b[of "k + 2"] by (simp add: blob_in_range_def)
  then show ?thesis using r0 by simp
qed

lemma seed_fields:
  "size_w (fst (seed p d rnd k bw bh st)) = max 1 bw"
  "size_h (fst (seed p d rnd k bw bh st)) = max 1 bh"
  "blobs (fst (seed p d rnd k bw bh st)) =
     map (\<lambda>i. make_blob p (speedToUse p d) (max 1 bw) (max 1 bh) rnd (k + 9 * i))
         [0..<nat (countToUse p d)]"
  "mb_frames (fst (seed p d rnd k bw bh st)) = mb_frames st"
  "mb_rafRef (fst (seed p d rnd k bw bh st)) = mb_rafRef st"
  "mb_next_handle (fst (seed p d rnd k bw bh st)) = mb_next_handle st"
  "mb_listeners (fst (seed p d rnd k bw bh st)) = mb_listeners st"
  "observing (fst (seed p d rnd k bw bh st)) = observing st"
  "resizeObserverRef (fst (seed p d rnd k bw bh st)) = resizeObserverRef st"
  by (simp_all add: seed_def Let_def)

lemma animate_fields:
  "size_w (animate ts st) = size_w st"
  "size_h (animate ts st) = size_h st"
  "blobs (animate ts st) =
     (if doc_hidden st then blobs st
      else map (move_blob (size_w st) (size_h st)
                  (max 1 (ts - (case mb_lastTime st of None \<Rightarrow> ts | Some t \<Rightarrow> t)))) (blobs st))"
  "mb_frames (animate ts st) = mb_frames st @ [mb_next_handle st]"
  "mb_rafRef (animate ts st) = mb_next_handle st"
  "mb_next_handle (animate ts st) = Suc (mb_next_handle st)"
  "mb_listeners (animate ts st) = mb_listeners st"
  "observing (animate ts st) = observing st"
  "resizeObserverRef (animate ts st) = resizeObserverRef st"
  by (simp_all add: animate_def Let_def mb_request_frame_def)

lemma mb_mount_fields:
  "size_w (fst (mb_mount p d rnd k bw bh st)) = max 1 bw"
  "size_h (fst (mb_mount p d rnd k bw bh st)) = max 1 bh"
  "blobs (fst (mb_mount p d rnd k bw bh st)) = blobs (fst (seed p d rnd k bw bh st))"
  "mb_frames (fst (mb_mount p d rnd k bw bh st)) = mb_frames st @ [mb_next_handle st]"
  "mb_rafRef (fst (mb_mount p d rnd k bw bh st)) = mb_next_handle st"
  "mb_next_handle (fst (mb_mount p d rnd k bw bh st)) = Suc (mb_next_handle st)"
  "resizeObserverRef (fst (mb_mount p d rnd k bw bh st)) = True"
  "observing (fst (mb_mount p d rnd k bw bh st)) = (has_ResizeObserver d \<or> observing st)"
  "mb_listeners (fst (mb_mount p d rnd k bw bh st)) =
     mb_listeners st @ (if has_ResizeObserver d then [] else [(''resize'', ''onResize'')])
       @ [(''visibilitychange'', ''handleVisibility'')]"
  by (simp_all add: mb_mount_def Let_def case_prod_beta mb_request_frame_def seed_fields)

lemma mb_run_frames_preserves:
  assumes "\<And>st fs. I st \<Longrightarrow> I (st\<lparr>mb_frames := fs\<rparr>)"
      and "\<And>st. I st \<Longrightarrow> I (animate ts st)"
  shows "I st \<Longrightarrow> I (mb_run_frames ts fs st)"
  by (induction fs arbitrary: st) (simp_all add: assms)

lemma mb_step_preserves:
  assumes "\<And>st fs. I st \<Longrightarrow> I (st\<lparr>mb_frames := fs\<rparr>)"
      and "\<And>st ts. I st \<Longrightarrow> I (animate ts st)"
      and "\<And>st k bw bh. I (fst (seed p d rnd k bw bh st))"
      and "\<And>st v. I st \<Longrightarrow> I (st\<lparr>doc_hidden := v\<rparr>)"
      and "\<And>st v. I st \<Longrightarrow> I (st\<lparr>mb_lastTime := v\<rparr>)"
  shows "I (fst sk) \<Longrightarrow> I (fst (mb_step p d rnd e sk))"
proof (cases sk)
  case (Pair st k)
  assume "I (fst sk)"
  then have i: "I st" using Pair by simp
  show ?thesis
  proof (cases e)
    case (MbTick ts)
    then show ?thesis
      using Pair i mb_run_frames_preserves[of I ts st "mb_frames st"] assms(1,2) by simp
  next
    case (MbResize bw bh)
    then show ?thesis using Pair i assms(3) by simp
  next
    case (MbVisibility hid)
    then show ?thesis using Pair i assms(4,5) by (simp add: Let_def)
  qed
qed

lemma mb_run_preserves:
  assumes "\<And>st fs. I st \<Longrightarrow> I (st\<lparr>mb_frames := fs\<rparr>)"
      and "\<And>st ts. I st \<Longrightarrow> I (animate ts st)"
      and "\<And>st k bw bh. I (fst (seed p d rnd k bw bh st))"
      and "\<And>st v. I st \<Longrightarrow> I (st\<lparr>doc_hidden := v\<rparr>)"
      and "\<And>st v. I st \<Longrightarrow> I (st\<lparr>mb_lastTime := v\<rparr>)"
  shows "I (fst sk) \<Longrightarrow> I (fst (mb_run p d rnd es sk))"
proof (induction es arbitrary: sk)
  case Nil
  then show ?case by simp
next
  case (Cons e es)
  have "I (fst (mb_step p d rnd e sk))"
    using mb_step_preserves[of I p d rnd sk e] assms Cons.prems by blast
  then show ?case using Cons.IH by simp
qed

lemma range_inv_seed:
  assumes "unit_rng rnd" "0 \<le> minR p" "0 \<le> maxR p"
  shows "range_inv (fst (seed p d rnd k bw bh st))"
  using make_blob_ok[OF assms, of "max 1 bw" "max 1 bh"]
  by (auto simp: range_inv_def seed_fields)

lemma range_inv_animate: "range_inv st \<Longrightarrow> range_inv (animate ts st)"
  by (auto simp: range_inv_def animate_fields move_blob_r move_blob_in_range)

lemma blobs_stay_in_range:
  assumes "unit_rng rnd" "0 \<le> minR p" "0 \<le> maxR p"
  shows "range_inv (fst (mb_run p d rnd es (mb_mount p d rnd k bw bh st)))"
proof (rule mb_run_preserves[where I = range_inv])
  show "range_inv (fst (mb_mount p d rnd k bw bh st))"
    using range_inv_seed[OF assms, of d k bw bh st]
    by (simp add: range_inv_def mb_mount_fields seed_fields)
qed (simp_all add: range_inv_def range_inv_animate[unfolded range_inv_def]
       range_inv_seed[OF assms, unfolded range_inv_def])

subsection \<open>Particles stay near the visible area\<close>

text \<open>A frame tick, while one callback is pending and it is the one \<open>rafRef\<close> names.\<close>

lemma tick_single:
  "frames st = [rafRef st] \<Longrightarrow>
   stars_step p hc rnd (Tick now) (st, k) = (draw now (st\<lparr>frames := []\<rparr>), k)"
  by simp

lemma run_tick_single:
  "frames st = [rafRef st] \<Longrightarrow>
   stars_run p hc rnd (Tick now # es) (st, k) = stars_run p hc rnd es (draw now (st\<lparr>frames := []\<rparr>), k)"
  by simp

lemma make_star_zero:
  assumes "\<not> clusters p" "l \<in> set layers"
  shows "drifting 0 (fst (make_star p w h l i (\<lambda>_. 0) k))"
proof -
  have "layer_sizeMult l \<le> 1.8" using assms(2) by (auto simp: layers_def)
  then show ?thesis using assms(1)
    by (simp add: drifting_def make_star_def Let_def rand_def)
qed

lemma drifting_move:
  "drifting x s \<Longrightarrow> - 20 \<le> x - 0.24 \<Longrightarrow> x - 0.24 \<le> w + 20 \<Longrightarrow>
   drifting (x - 0.24) (move_star w h 40 s)"
  by (simp add: drifting_def move_star_x move_star_keeps)

text \<open>
  C1, as stated, fails for the stars: with all random draws 0 and no clusters, on a canvas
  of 100 by 100, every star starts at x = 0 and drifts left by 0.24 a frame; after three
  frames it is at -0.72, further out than its radius (at most 0.63), and it is not wrapped.
\<close>

theorem star_leaves_radius_band:
  "\<not> (\<forall>s \<in> set (stars (fst (stars_run cex_props None (\<lambda>_. 0) [Tick 40, Tick 80, Tick 120]
                              (stars_mount cex_props None (\<lambda>_. 0) 0 cex_layout 1 0
                                 (initial_refs 0))))).
         0 - star_r s \<le> star_x s)"
proof -
  let ?m = "stars_mount cex_props None (\<lambda>_. 0) 0 cex_layout 1 0 (initial_refs 0)"
  let ?st0 = "fst ?m"
  let ?st1 = "draw 40 (?st0\<lparr>frames := []\<rparr>)"
  let ?st2 = "draw 80 (?st1\<lparr>frames := []\<rparr>)"
  let ?st3 = "draw 120 (?st2\<lparr>frames := []\<rparr>)"
  have nc: "\<not> clusters cex_props" by (simp add: cex_props_def default_props_def)
  have f0: "frames ?st0 = [rafRef ?st0]" by (simp add: mount_fields initial_refs_def)
  have w0: "dims_w ?st0 = 100" by (simp add: mount_fields cex_layout_def)
  have h0: "\<not> hidden ?st0" by (simp add: mount_fields initial_refs_def)
  have t0: "lastTime ?st0 = 0" by (simp add: mount_fields)
  have s0: "\<forall>s \<in> set (stars ?st0). drifting 0 s"
    unfolding mount_fields resize_stars
    using all_layers_all[of layers "drifting 0" cex_props _ _ "\<lambda>_. 0"] make_star_zero[OF nc]
    by auto
  have ne: "stars ?st0 \<noteq> []"
    unfolding mount_fields resize_stars using all_layers_nonempty
    by (metis length_sort list.size(3) length_0_conv)
  have run: "fst (stars_run cex_props None (\<lambda>_. 0) [Tick 40, Tick 80, Tick 120] ?m) = ?st3"
  proof -
    have m: "?m = (?st0, snd ?m)" by simp
    have f1: "frames ?st1 = [rafRef ?st1]" by (simp add: draw_fields)
    have f2: "frames ?st2 = [rafRef ?st2]" by (simp add: draw_fields)
    have "stars_run cex_props None (\<lambda>_. 0) [Tick 40, Tick 80, Tick 120] ?m
          = stars_run cex_props None (\<lambda>_. 0) [Tick 40, Tick 80, Tick 120] (?st0, snd ?m)"
      using m by simp
    also have "\<dots> = stars_run cex_props None (\<lambda>_. 0) [Tick 80, Tick 120] (?st1, snd ?m)"
      by (rule run_tick_single[OF f0])
    also have "\<dots> = stars_run cex_props None (\<lambda>_. 0) [Tick 120] (?st2, snd ?m)"
      by (rule run_tick_single[OF f1])
    also have "\<dots> = stars_run cex_props None (\<lambda>_. 0) [] (?st3, snd ?m)"
      by (rule run_tick_single[OF f2])
    finally show ?thesis by simp
  qed
  have s1: "stars ?st1 = map (move_star 100 100 40) (stars ?st0)"
    using h0 w0 t0 by (simp add: draw_fields mount_fields cex_layout_def)
  have s2: "stars ?st2 = map (move_star 100 100 40) (stars ?st1)"
    using h0 by (simp add: draw_fields mount_fields cex_layout_def)
  have s3: "stars ?st3 = map (move_star 100 100 40) (stars ?st2)"
    using h0 by (simp add: draw_fields mount_fields cex_layout_def)
  have d1: "\<forall>s \<in> set (stars ?st1). drifting (- 0.24) s"
    unfolding s1 using s0 drifting_move[of 0 _ 100 100] by auto
  have d2: "\<forall>s \<in> set (stars ?st2). drifting (- 0.48) s"
    unfolding s2 using d1 drifting_move[of "- 0.24" _ 100 100] by auto
  have d3: "\<forall>s \<in> set (stars ?st3). drifting (- 0.72) s"
    unfolding s3 using d2 drifting_move[of "- 0.48" _ 100 100] by auto
  have ne3: "stars ?st3 \<noteq> []" unfolding s3 s2 s1 using ne by simp
  then obtain s where s: "s \<in> set (stars ?st3)" by (cases "stars ?st3") auto
  then have "drifting (- 0.72) s" using d3 by blast
  then have "\<not> (0 - star_r s \<le> star_x s)" by (simp add: drifting_def)
  then show ?thesis using s run by metis
qed

text \<open>
  C1, as amended. After the mount and any events (frames, resizes, visibility changes),
  every blob lies within its own radius of the container, for radius bounds that are
  not negative; every star lies within the fixed margin of 20 of the canvas, which is
  not its radius.
\<close>

theorem particles_stay_near:
  assumes "unit_rng rnd" "0 \<le> minR p" "0 \<le> maxR p"
  shows "(\<forall>b \<in> set (blobs (fst (mb_run p d rnd es (mb_mount p d rnd k bw bh st)))).
            0 - blob_r b \<le> blob_x b
            \<and> blob_x b \<le> size_w (fst (mb_run p d rnd es (mb_mount p d rnd k bw bh st))) + blob_r b
            \<and> 0 - blob_r b \<le> blob_y b
            \<and> blob_y b \<le> size_h (fst (mb_run p d rnd es (mb_mount p d rnd k bw bh st))) + blob_r b)
       \<and> (\<forall>s \<in> set (stars (fst (stars_run sp hc rnd ses (stars_mount sp hc rnd j lay dpr now sst)))).
            0 - 20 \<le> star_x s
            \<and> star_x s \<le> dims_w (fst (stars_run sp hc rnd ses (stars_mount sp hc rnd j lay dpr now sst))) + 20
            \<and> 0 - 20 \<le> star_y s
            \<and> star_y s \<le> dims_h (fst (stars_run sp hc rnd ses (stars_mount sp hc rnd j lay dpr now sst))) + 20)"
  using blobs_stay_in_range[OF assms, of d es k bw bh st]
        stars_stay_in_margin[OF assms(1), of sp hc ses j lay dpr now sst]
  by (simp add: range_inv_def blob_in_range_def margin_inv_def in_margin_def)

theorem particles_stay_near_witness:
  "unit_rng (\<lambda>_. 1 / 2) \<and> 0 \<le> minR mb_default_props \<and> 0 \<le> maxR mb_default_props
   \<and> list_all (\<lambda>b. 0 - blob_r b \<le> blob_x b
            \<and> blob_x b \<le> size_w (fst (mb_run mb_default_props device_plain (\<lambda>_. 1 / 2)
                                [MbTick 16, MbResize 640 480, MbTick 33]
                                (mb_mount mb_default_props device_plain (\<lambda>_. 1 / 2) 0 800 600
                                   mb_initial_refs))) + blob_r b
            \<and> 0 - blob_r b \<le> blob_y b
            \<and> blob_y b \<le> size_h (fst (mb_run mb_default_props device_plain (\<lambda>_. 1 / 2)
                                [MbTick 16, MbResize 640 480, MbTick 33]
                                (mb_mount mb_default_props device_plain (\<lambda>_. 1 / 2) 0 800 600
                                   mb_initial_refs))) + blob_r b)
        (blobs (fst (mb_run mb_default_props device_plain (\<lambda>_. 1 / 2)
                       [MbTick 16, MbResize 640 480, MbTick 33]
                       (mb_mount mb_default_props device_plain (\<lambda>_. 1 / 2) 0 800 600
                          mb_initial_refs))))
   \<and> list_all (\<lambda>s. 0 - 20 \<le> star_x s
            \<and> star_x s \<le> dims_w (fst (stars_run default_props None (\<lambda>_. 1 / 2) [Tick 16, Tick 32]
                                (stars_mount default_props None (\<lambda>_. 1 / 2) 0 cex_layout 1 0
                                   (initial_refs 0)))) + 20
            \<and> 0 - 20 \<le> star_y s
            \<and> star_y s \<le> dims_h (fst (stars_run default_props None (\<lambda>_. 1 / 2) [Tick 16, Tick 32]
                                (stars_mount default_props None (\<lambda>_. 1 / 2) 0 cex_layout 1 0
                                   (initial_refs 0)))) + 20)
        (stars (fst (stars_run default_props None (\<lambda>_. 1 / 2) [Tick 16, Tick 32]
                       (stars_mount default_props None (\<lambda>_. 1 / 2) 0 cex_layout 1 0
                          (initial_refs 0)))))"
proof -
  have h1: "unit_rng (\<lambda>_. 1 / 2)" by (simp add: unit_rng_def)
  have h2: "0 \<le> minR mb_default_props" by (simp add: mb_default_props_def)
  have h3: "0 \<le> maxR mb_default_props" by (simp add: mb_default_props_def)
  show ?thesis
    unfolding list_all_iff
    using h1 h2 h3
      particles_stay_near[OF h1 h2 h3, of device_plain "[MbTick 16, MbResize 640 480, MbTick 33]"
        0 800 600 mb_initial_refs default_props None "[Tick 16, Tick 32]" 0 cex_layout 1 0
        "initial_refs 0"]
    by blast
qed

subsection \<open>The wrap is a snap to the far margin\<close>

lemma move_star_base:
  "baseX (move_star w h dt s) =
     (if star_x s + star_vx s * dt < - 20 then w + 20
      else if star_x s + star_vx s * dt > w + 20 then - 20 else baseX s)"
  "baseY (move_star w h dt s) =
     (if star_y s + star_vy s * dt < - 20 then h + 20
      else if star_y s + star_vy s * dt > h + 20 then - 20 else baseY s)"
  by (simp_all add: move_star_def twinkle_def wrap_star_def drift_star_def Let_def)

text \<open>
  C2, as stated, fails: in a frame of 40 ms on a canvas 1000 wide, a star at -19.9 moving
  left by 0.24 ends at 1020, the fixed far margin, not at 1019.86 as a modulo wrap would
  have it; a star at -19.8 ends at the same 1020.
\<close>

theorem star_wrap_not_modulo:
  "star_x (hd (stars (draw 40 (edge_state (- 19.9))))) = 1020
   \<and> star_x (hd (stars (draw 40 (edge_state (- 19.8))))) = 1020
   \<and> wrap_modulo (- 20) 1020 (- 19.9 + - 0.006 * 40) = 1019.86
   \<and> star_x (hd (stars (draw 40 (edge_state (- 19.9)))))
       \<noteq> wrap_modulo (- 20) 1020
            (star_x (hd (stars (edge_state (- 19.9))))
             + star_vx (hd (stars (edge_state (- 19.9)))) * 40)"
proof -
  have fl: "\<lfloor>(- 14 :: real) / 104000\<rfloor> = - 1" by simp
  have d: "\<And>x. stars (draw 40 (edge_state x)) = [move_star 1000 800 40 (edge_star x)]"
    by (simp add: draw_fields edge_state_def initial_refs_def)
  have s0: "\<And>x. stars (edge_state x) = [edge_star x]" by (simp add: edge_state_def)
  have x1: "star_x (hd (stars (draw 40 (edge_state (- 19.9))))) = 1020"
    by (simp add: d move_star_x edge_star_def)
  have x2: "star_x (hd (stars (draw 40 (edge_state (- 19.8))))) = 1020"
    by (simp add: d move_star_x edge_star_def)
  have w: "wrap_modulo (- 20) 1020 (- 19.9 + - 0.006 * 40) = 1019.86"
    by (simp add: wrap_modulo_def fl)
  have e: "star_x (hd (stars (edge_state (- 19.9))))
             + star_vx (hd (stars (edge_state (- 19.9)))) * 40 = - 19.9 + - 0.006 * 40"
    by (simp add: s0 edge_star_def)
  show ?thesis unfolding e x1 x2 w by simp
qed

text \<open>
  C2, as amended. In a frame that is drawn, a star drifts by its velocity times the
  elapsed time (at most 40 ms); if that takes it more than 20 past the left or top edge
  it is put at exactly 20 past the opposite edge, and the other way round, with its base
  position; the overshoot is dropped. Otherwise it stays where the drift took it.
\<close>

theorem star_wrap_snaps:
  assumes "\<not> hidden st" "i < length (stars st)"
  shows "(star_x (stars st ! i) + star_vx (stars st ! i) * min 40 (now - lastTime st) < - 20
            \<longrightarrow> star_x (stars (draw now st) ! i) = dims_w st + 20
                \<and> baseX (stars (draw now st) ! i) = dims_w st + 20)
       \<and> (- 20 \<le> star_x (stars st ! i) + star_vx (stars st ! i) * min 40 (now - lastTime st)
          \<and> dims_w st + 20 < star_x (stars st ! i) + star_vx (stars st ! i) * min 40 (now - lastTime st)
            \<longrightarrow> star_x (stars (draw now st) ! i) = - 20
                \<and> baseX (stars (draw now st) ! i) = - 20)
       \<and> (- 20 \<le> star_x (stars st ! i) + star_vx (stars st ! i) * min 40 (now - lastTime st)
          \<and> star_x (stars st ! i) + star_vx (stars st ! i) * min 40 (now - lastTime st) \<le> dims_w st + 20
            \<longrightarrow> star_x (stars (draw now st) ! i)
                  = star_x (stars st ! i) + star_vx (stars st ! i) * min 40 (now - lastTime st))
       \<and> (star_y (stars st ! i) + star_vy (stars st ! i) * min 40 (now - lastTime st) < - 20
            \<longrightarrow> star_y (stars (draw now st) ! i) = dims_h st + 20
                \<and> baseY (stars (draw now st) ! i) = dims_h st + 20)
       \<and> (- 20 \<le> star_y (stars st ! i) + star_vy (stars st ! i) * min 40 (now - lastTime st)
          \<and> dims_h st + 20 < star_y (stars st ! i) + star_vy (stars st ! i) * min 40 (now - lastTime st)
            \<longrightarrow> star_y (stars (draw now st) ! i) = - 20
                \<and> baseY (stars (draw now st) ! i) = - 20)
       \<and> (- 20 \<le> star_y (stars st ! i) + star_vy (stars st ! i) * min 40 (now - lastTime st)
          \<and> star_y (stars st ! i) + star_vy (stars st ! i) * min 40 (now - lastTime st) \<le> dims_h st + 20
            \<longrightarrow> star_y (stars (draw now st) ! i)
                  = star_y (stars st ! i) + star_vy (stars st ! i) * min 40 (now - lastTime st))"
proof -
  let ?dt = "min 40 (now - lastTime st)"
  have "stars (draw now st) = map (move_star (dims_w st) (dims_h st) ?dt) (stars st)"
    using assms(1) by (simp add: draw_fields)
  then have m: "stars (draw now st) ! i = move_star (dims_w st) (dims_h st) ?dt (stars st ! i)"
    using assms(2) by simp
  show ?thesis
    unfolding m by (simp add: move_star_x move_star_y move_star_base)
qed

theorem star_wrap_snaps_witness:
  "\<not> hidden (edge_state (- 19.9)) \<and> (0::nat) < length (stars (edge_state (- 19.9)))
   \<and> star_x (stars (edge_state (- 19.9)) ! 0) + star_vx (stars (edge_state (- 19.9)) ! 0)
        * min 40 (40 - lastTime (edge_state (- 19.9))) < - 20
   \<and> star_x (stars (draw 40 (edge_state (- 19.9))) ! 0) = dims_w (edge_state (- 19.9)) + 20
   \<and> dims_w (edge_state (- 19.9)) + 20 = 1020
   \<and> - 20 \<le> star_y (stars (edge_state (- 19.9)) ! 0) + star_vy (stars (edge_state (- 19.9)) ! 0)
        * min 40 (40 - lastTime (edge_state (- 19.9)))
   \<and> star_y (stars (edge_state (- 19.9)) ! 0) + star_vy (stars (edge_state (- 19.9)) ! 0)
        * min 40 (40 - lastTime (edge_state (- 19.9))) \<le> dims_h (edge_state (- 19.9)) + 20
   \<and> star_y (stars (draw 40 (edge_state (- 19.9))) ! 0)
       = star_y (stars (edge_state (- 19.9)) ! 0) + star_vy (stars (edge_state (- 19.9)) ! 0)
        * min 40 (40 - lastTime (edge_state (- 19.9)))"
proof -
  have h1: "\<not> hidden (edge_state (- 19.9))" by (simp add: edge_state_def initial_refs_def)
  have h2: "(0::nat) < length (stars (edge_state (- 19.9)))" by (simp add: edge_state_def)
  have a: "star_x (stars (edge_state (- 19.9)) ! 0) + star_vx (stars (edge_state (- 19.9)) ! 0)
        * min 40 (40 - lastTime (edge_state (- 19.9))) < - 20"
    by (simp add: edge_state_def edge_star_def initial_refs_def)
  have b: "- 20 \<le> star_y (stars (edge_state (- 19.9)) ! 0) + star_vy (stars (edge_state (- 19.9)) ! 0)
        * min 40 (40 - lastTime (edge_state (- 19.9)))
     \<and> star_y (stars (edge_state (- 19.9)) ! 0) + star_vy (stars (edge_state (- 19.9)) ! 0)
        * min 40 (40 - lastTime (edge_state (- 19.9))) \<le> dims_h (edge_state (- 19.9)) + 20"
    by (simp add: edge_state_def edge_star_def initial_refs_def)
  have c: "dims_w (edge_state (- 19.9)) + 20 = 1020" by (simp add: edge_state_def)
  show ?thesis
    using h1 h2 a b c star_wrap_snaps[OF h1 h2, of 40] by blast
qed

subsection \<open>Shooting stars\<close>

text \<open>
  What \<open>maybeSpawnShot\<close> would do if it were called: with a positive frequency it adds
  one shot exactly when the draw is below the elapsed time (at most 1000 ms) over the
  interval in milliseconds.
\<close>

lemma maybeSpawnShot_rate:
  "shootingFrequency p > 0 \<Longrightarrow>
   length (shots (fst (maybeSpawnShot p rnd k now st))) =
     (if rnd k < min 1000 (now - lastTime st) / (shootingFrequency p * 1000)
      then Suc (length (shots st)) else length (shots st))"
  by (simp add: maybeSpawnShot_def spawnShot_def Let_def)

text \<open>In \<open>draw\<close> a shot older than its life is removed from the list.\<close>

lemma shots_age_out:
  "shot_age q + dt > shot_life q \<Longrightarrow> step_shots dt [q] = []"
  by (simp add: Let_def)

text \<open>
  C3 fails on the code. \<open>maybeSpawnShot\<close> is never called, so whatever the props (the
  default asks for a shooting star every 10 s on average), the random draws and the
  events, the list of shots is empty: no shooting star ever appears.
\<close>

theorem no_shot_ever_spawns:
  "shots (fst (stars_run p hc rnd es (stars_mount p hc rnd k lay dpr now st))) = []"
proof (rule stars_run_preserves[where I = "\<lambda>st. shots st = []"])
  show "shots (fst (stars_mount p hc rnd k lay dpr now st)) = []"
    by (simp add: mount_fields)
qed (simp_all add: draw_fields resize_fields updateExcludeRects_def)

theorem no_shot_ever_spawns_default:
  "shootingFrequency default_props = 10
   \<and> shots (fst (stars_run default_props (Some 8) (\<lambda>_. 0)
                   [Tick 16, Tick 32, Tick 48, Tick 1048]
                   (stars_mount default_props (Some 8) (\<lambda>_. 0) 0 cex_layout 1 0
                      (initial_refs 0)))) = []"
  using no_shot_ever_spawns[of default_props "Some 8" "\<lambda>_. 0"
          "[Tick 16, Tick 32, Tick 48, Tick 1048]" 0 cex_layout 1 0 "initial_refs 0"]
  by (simp add: default_props_def)

subsection \<open>Rounding to doubles\<close>

lemma two_powr_neg: "(2::real) powr (- real k) = 1 / 2 ^ k"
  by (simp add: powr_minus powr_realpow inverse_eq_divide)

lemma two_powr_pos: "(2::real) powr (real k) = 2 ^ k"
  by (simp add: powr_realpow)

lemma binade_eq:
  assumes "0 < x" "2 powr (of_int e) \<le> x" "x < 2 powr (of_int e + 1)"
  shows "binade x = e"
proof -
  have "\<lfloor>log 2 x\<rfloor> = e"
    using floor_log_eq_powr_iff[of x 2 e] assms by simp
  then show ?thesis using assms(1) by (simp add: binade_def)
qed

lemma binade_pos:
  assumes "2 ^ e \<le> x" "x < 2 ^ Suc e"
  shows "binade x = int e"
proof -
  have p: "0 < (2::real) ^ e" by simp
  have x: "0 < x" using assms(1) p by linarith
  have a: "(2::real) powr (of_int (int e)) = 2 ^ e" using two_powr_pos[of e] by simp
  have e1: "of_int (int e) + (1::real) = real (Suc e)" by simp
  have b: "(2::real) powr (of_int (int e) + 1) = 2 ^ Suc e"
    unfolding e1 by (rule two_powr_pos)
  show ?thesis by (rule binade_eq[OF x]) (simp_all only: a b assms)
qed

lemma binade_neg:
  assumes "1 \<le> x * 2 ^ k" "x * 2 ^ k < 2"
  shows "binade x = - int k"
proof -
  have p: "0 < (2::real) ^ k" by simp
  have x: "0 < x"
  proof (rule ccontr)
    assume "\<not> 0 < x"
    then have "x * 2 ^ k \<le> 0" using p by (simp add: mult_nonpos_nonneg)
    then show False using assms(1) by linarith
  qed
  have e1: "of_int (- int k) = - real k" by simp
  have a: "(2::real) powr (of_int (- int k)) = 1 / 2 ^ k"
    unfolding e1 by (rule two_powr_neg)
  have "(2::real) powr (of_int (- int k) + 1) = 2 powr (of_int (- int k)) * 2 powr 1"
    by (rule powr_add)
  then have b: "(2::real) powr (of_int (- int k) + 1) = 2 / 2 ^ k"
    unfolding a by simp
  have c: "1 / 2 ^ k \<le> x" using assms(1) p by (simp add: field_simps)
  have d: "x < 2 / 2 ^ k" using assms(2) p by (simp add: field_simps)
  show ?thesis by (rule binade_eq[OF x]) (simp_all only: a b c d)
qed

text \<open>The double nearest to a number from 1 up, and to a number below 1.\<close>

lemma to_double_pos:
  assumes "2 ^ e \<le> x" "x < 2 ^ Suc e" "e \<le> 52"
  shows "to_double x = of_int (round_even (x * 2 ^ (52 - e))) / 2 ^ (52 - e)"
proof -
  have p: "0 < (2::real) ^ e" by simp
  have x: "x \<noteq> 0" using assms(1) p by linarith
  have b: "binade x = int e" using binade_pos[OF assms(1,2)] .
  have e2: "of_int (int e) - (52::real) = - real (52 - e)" using assms(3) by simp
  have u: "(2::real) powr (of_int (binade x) - 52) = 1 / 2 ^ (52 - e)"
    unfolding b e2 by (rule two_powr_neg)
  show ?thesis unfolding to_double_def u using x by simp
qed

lemma to_double_neg:
  assumes "1 \<le> x * 2 ^ k" "x * 2 ^ k < 2"
  shows "to_double x = of_int (round_even (x * 2 ^ (52 + k))) / 2 ^ (52 + k)"
proof -
  have x: "x \<noteq> 0" using assms(1) by auto
  have b: "binade x = - int k" using binade_neg[OF assms] .
  have e2: "of_int (- int k) - (52::real) = - real (52 + k)" by simp
  have u: "(2::real) powr (of_int (binade x) - 52) = 1 / 2 ^ (52 + k)"
    unfolding b e2 by (rule two_powr_neg)
  show ?thesis unfolding to_double_def u using x by simp
qed

text \<open>The literal \<open>0.35\<close> is the double \<open>0x1.6666666666666p-2\<close>, a little below 0.35.\<close>

lemma double_035: "to_double 0.35 = 6305039478318694 / 2 ^ 54"
proof -
  have a: "to_double 0.35 = of_int (round_even (0.35 * 2 ^ (52 + 2))) / 2 ^ (52 + 2)"
    by (rule to_double_neg) simp_all
  have b: "round_even (0.35 * 2 ^ (52 + 2)) = 6305039478318694"
    by (simp add: round_even_def Let_def)
  show ?thesis unfolding a b by simp
qed

text \<open>
  \<open>Math.floor(6 * 0.35)\<close> is 2, and \<open>Math.floor(180 * 0.35)\<close> is 62 although 35% of 180
  is 63: the product of the doubles rounds to \<open>62.99999999999999\<close>.
\<close>

lemma fmul_6_035: "\<lfloor>fmul 6 (to_double 0.35)\<rfloor> = 2"
proof -
  let ?x = "6 * (6305039478318694 / 2 ^ 54) :: real"
  have a: "to_double ?x = of_int (round_even (?x * 2 ^ (52 - 1))) / 2 ^ (52 - 1)"
    by (rule to_double_pos) simp_all
  have b: "round_even (?x * 2 ^ (52 - 1)) = 4728779608739020"
    by (simp add: round_even_def Let_def)
  have v: "fmul 6 (to_double 0.35) = 4728779608739020 / 2 ^ 51"
    unfolding fmul_def double_035 a b by simp
  show ?thesis unfolding v by simp
qed

lemma fmul_180_035: "\<lfloor>fmul 180 (to_double 0.35)\<rfloor> = 62"
proof -
  let ?x = "180 * (6305039478318694 / 2 ^ 54) :: real"
  have a: "to_double ?x = of_int (round_even (?x * 2 ^ (52 - 5))) / 2 ^ (52 - 5)"
    by (rule to_double_pos) simp_all
  have b: "round_even (?x * 2 ^ (52 - 5)) = 8866461766385663"
    by (simp add: round_even_def Let_def)
  have v: "fmul 180 (to_double 0.35) = 8866461766385663 / 2 ^ 47"
    unfolding fmul_def double_035 a b by simp
  show ?thesis unfolding v by simp
qed

lemma round_even_int: "round_even (of_int m) = m"
  by (simp add: round_even_def Let_def)

lemma to_double_exact:
  assumes "x / 2 powr (of_int (binade x) - 52) = of_int m"
  shows "to_double x = x"
proof (cases "x = 0")
  case True
  then show ?thesis by (simp add: to_double_def)
next
  case False
  have u: "(2::real) powr (of_int (binade x) - 52) \<noteq> 0" by simp
  have "to_double x = of_int m * 2 powr (of_int (binade x) - 52)"
    using False by (simp add: to_double_def assms round_even_int)
  also have "\<dots> = x" using assms u by (simp add: field_simps)
  finally show ?thesis .
qed

lemma double_half: "to_double 0.5 = 1 / 2"
proof -
  have a: "to_double 0.5 = of_int (round_even (0.5 * 2 ^ (52 + 1))) / 2 ^ (52 + 1)"
    by (rule to_double_neg) simp_all
  have b: "round_even (0.5 * 2 ^ (52 + 1)) = 4503599627370496"
    by (simp add: round_even_def Let_def)
  show ?thesis unfolding a b by simp
qed

lemma half_exact:
  assumes "0 < n" "n < 2 ^ 53"
  shows "to_double (of_int n / 2) = of_int n / 2"
proof -
  let ?x = "of_int n / 2 :: real"
  have x: "0 < ?x" using assms(1) by simp
  have lt: "?x < 2 powr 52"
  proof -
    have "of_int n < (2::real) ^ 53" using assms(2) by (metis of_int_less_numeral_power_cancel_iff)
    then show ?thesis by simp
  qed
  have "real_of_int (binade ?x) \<le> log 2 ?x" using x by (simp add: binade_def)
  also have "log 2 ?x < 52" using lt x by (simp add: log_less_iff)
  finally have e: "binade ?x \<le> 51" by linarith
  define k where "k = nat (51 - binade ?x)"
  have ek: "of_int (binade ?x) - (52::real) = - real (Suc k)"
    using e by (simp add: k_def)
  have u: "(2::real) powr (of_int (binade ?x) - 52) = 1 / 2 ^ Suc k"
    unfolding ek by (rule two_powr_neg)
  have "?x / 2 powr (of_int (binade ?x) - 52) = of_int (n * 2 ^ k)"
    unfolding u by simp
  then show ?thesis by (rule to_double_exact)
qed

text \<open>Half of an integer below \<open>2 ^ 53\<close> is a double: \<open>Math.floor(n * 0.5)\<close> is \<open>n div 2\<close>.\<close>

lemma fmul_half:
  assumes "0 \<le> n" "n < 2 ^ 53"
  shows "\<lfloor>fmul (of_int n) (to_double 0.5)\<rfloor> = n div 2"
proof -
  have v: "fmul (of_int n) (to_double 0.5) = of_int n / 2"
  proof (cases "n = 0")
    case True
    then show ?thesis by (simp add: fmul_def to_double_def)
  next
    case False
    then have p: "0 < n" using assms(1) by simp
    have "fmul (of_int n) (to_double 0.5) = to_double (of_int n * (1 / 2))"
      unfolding fmul_def double_half ..
    also have "of_int n * (1 / 2) = (of_int n / 2 :: real)" by simp
    finally show ?thesis unfolding half_exact[OF p assms(2)] .
  qed
  have "\<lfloor>(of_int n / of_int 2 :: real)\<rfloor> = n div 2" by (rule floor_divide_of_int_eq)
  then show ?thesis unfolding v by simp
qed

subsection \<open>The number of blobs\<close>

text \<open>The count the \<open>useMemo\<close> yields, branch by branch.\<close>

lemma countToUse_plain:
  "\<not> (autoReduce p \<and> has_window d) \<Longrightarrow> countToUse p d = mb_count p"
  by (auto simp add: countToUse_def quality_def)

lemma countToUse_reduced:
  "autoReduce p \<Longrightarrow> has_window d \<Longrightarrow> mb_prefersReduced d
   \<Longrightarrow> countToUse p d = max 2 \<lfloor>fmul (of_int (mb_count p)) (to_double 0.35)\<rfloor>"
  by (simp add: countToUse_def quality_def)

lemma countToUse_low:
  "autoReduce p \<Longrightarrow> has_window d \<Longrightarrow> \<not> mb_prefersReduced d \<Longrightarrow> lowMemory d \<or> fewCores d
   \<Longrightarrow> countToUse p d = max 2 \<lfloor>fmul (of_int (mb_count p)) (to_double 0.5)\<rfloor>"
  by (auto simp add: countToUse_def quality_def)

lemma countToUse_ordinary:
  "autoReduce p \<Longrightarrow> has_window d \<Longrightarrow> \<not> mb_prefersReduced d \<Longrightarrow> \<not> lowMemory d
   \<Longrightarrow> \<not> fewCores d \<Longrightarrow> countToUse p d = mb_count p"
  by (simp add: countToUse_def quality_def)

text \<open>
  With the props of the page (\<open>count\<close> 6, \<open>autoReduce\<close> set): 6 blobs on an ordinary device,
  2 under reduced motion, 3 on a device of low memory. With \<open>count\<close> 180 under reduced
  motion: 62.
\<close>

lemma countToUse_page_plain: "countToUse page_props device_plain = 6"
  by (simp add: countToUse_def quality_def page_props_def device_plain_def
        mb_prefersReduced_def lowMemory_def fewCores_def)

lemma countToUse_page_reduced: "countToUse page_props device_reduced = 2"
proof -
  have "countToUse page_props device_reduced = max 2 \<lfloor>fmul 6 (to_double 0.35)\<rfloor>"
    by (simp add: countToUse_def quality_def page_props_def device_reduced_def device_plain_def
          mb_prefersReduced_def)
  then show ?thesis unfolding fmul_6_035 by simp
qed

lemma countToUse_page_low: "countToUse page_props device_low_memory = 3"
proof -
  have "countToUse page_props device_low_memory
          = max 2 \<lfloor>fmul (of_int 6) (to_double 0.5)\<rfloor>"
    by (simp add: countToUse_def quality_def page_props_def device_low_memory_def
          device_plain_def mb_prefersReduced_def lowMemory_def)
  also have "\<lfloor>fmul (of_int 6) (to_double 0.5)\<rfloor> = 6 div 2"
    by (rule fmul_half) simp_all
  finally show ?thesis by simp
qed

lemma countToUse_180_reduced:
  "countToUse (page_props\<lparr>mb_count := 180\<rparr>) device_reduced = 62"
proof -
  have "countToUse (page_props\<lparr>mb_count := 180\<rparr>) device_reduced
          = max 2 \<lfloor>fmul 180 (to_double 0.35)\<rfloor>"
    by (simp add: countToUse_def quality_def page_props_def device_reduced_def device_plain_def
          mb_prefersReduced_def)
  then show ?thesis unfolding fmul_180_035 by simp
qed

text \<open>
  The render throws exactly when \<open>countToUse\<close> is not an array length; a negative \<open>count\<close>
  without the reduction is such a case, and then nothing is seeded.
\<close>

lemma render_throws_iff:
  "mb_component p d rnd k bw bh st = Inl RangeError
     \<longleftrightarrow> countToUse p d < 0 \<or> 2 ^ 32 \<le> countToUse p d"
  by (auto simp add: mb_component_def render_blobEls_def)

lemma render_mounts_iff:
  "mb_component p d rnd k bw bh st = Inr (mb_mount p d rnd k bw bh st)
     \<longleftrightarrow> 0 \<le> countToUse p d \<and> countToUse p d < 2 ^ 32"
  by (auto simp add: mb_component_def render_blobEls_def)

lemma negative_count_throws:
  assumes "mb_count p < 0" "\<not> autoReduce p"
  shows "mb_component p d rnd k bw bh st = Inl RangeError"
  using assms countToUse_plain[of p d] by (simp add: render_throws_iff)

lemma mounted_count:
  assumes "mb_component p d rnd k bw bh st = Inr sk"
  shows "sk = mb_mount p d rnd k bw bh st" "0 \<le> countToUse p d" "countToUse p d < 2 ^ 32"
    "render_blobEls p d = Inr (nat (countToUse p d))"
  using assms by (auto simp add: mb_component_def render_blobEls_def split: if_splits)

text \<open>
  C4, as stated, fails: with \<open>count\<close> 6 and \<open>autoReduce\<close> set, as on the page, on a
  device that asks for reduced motion, the component mounts and \<open>seed\<close> makes 2 blobs.
\<close>

theorem reduced_device_seeds_fewer:
  "mb_count page_props = 6
   \<and> mb_component page_props device_reduced (\<lambda>_. 0) 0 800 600 mb_initial_refs
       = Inr (mb_mount page_props device_reduced (\<lambda>_. 0) 0 800 600 mb_initial_refs)
   \<and> length (blobs (fst (mb_mount page_props device_reduced (\<lambda>_. 0) 0 800 600
                           mb_initial_refs))) = 2
   \<and> length (blobs (fst (seed page_props device_reduced (\<lambda>_. 0) 0 800 600 mb_initial_refs))) = 2"
proof -
  have c: "mb_count page_props = 6" by (simp add: page_props_def)
  show ?thesis unfolding c
    by (simp add: render_mounts_iff mb_mount_fields seed_fields countToUse_page_reduced)
qed

lemma count_inv_run:
  "length (blobs (fst (mb_run p d rnd es (mb_mount p d rnd k bw bh st)))) = nat (countToUse p d)"
proof (rule mb_run_preserves[where I = "\<lambda>st. length (blobs st) = nat (countToUse p d)"])
  show "length (blobs (fst (mb_mount p d rnd k bw bh st))) = nat (countToUse p d)"
    by (simp add: mb_mount_fields seed_fields)
qed (simp_all add: animate_fields seed_fields)

text \<open>
  C4, as amended. Let the component mount, that is, let its render not throw. Then after
  the mount, after any events (frames, reseeds by a resize, visibility changes), and after
  any further call of \<open>seed\<close> with any box, the number of blobs is \<open>countToUse\<close>, which is
  also the number of blob elements rendered. And \<open>countToUse\<close> is the configured count when
  \<open>autoReduce\<close> is off or there is no window, and when \<open>autoReduce\<close> is on and the device
  neither asks for reduced motion nor has low memory or few cores; with \<open>autoReduce\<close> on it
  is the larger of 2 and \<open>Math.floor(count * 0.35)\<close>, a product of doubles, under reduced
  motion; and otherwise the larger of 2 and \<open>Math.floor(count * 0.5)\<close>, half the count
  rounded down, on a device of low memory or few cores.
\<close>

theorem blob_count_is_countToUse:
  assumes "mb_component p d rnd k bw bh st = Inr sk"
  shows "int (length (blobs (fst sk))) = countToUse p d
       \<and> int (length (blobs (fst (mb_run p d rnd es sk)))) = countToUse p d
       \<and> int (length (blobs (fst (seed p d rnd j w h (fst (mb_run p d rnd es sk))))))
           = countToUse p d
       \<and> render_blobEls p d = Inr (length (blobs (fst (mb_run p d rnd es sk))))
       \<and> (\<not> (autoReduce p \<and> has_window d) \<longrightarrow> countToUse p d = mb_count p)
       \<and> (autoReduce p \<and> has_window d \<and> mb_prefersReduced d
            \<longrightarrow> countToUse p d = max 2 \<lfloor>fmul (of_int (mb_count p)) (to_double 0.35)\<rfloor>)
       \<and> (autoReduce p \<and> has_window d \<and> \<not> mb_prefersReduced d \<and> (lowMemory d \<or> fewCores d)
            \<longrightarrow> countToUse p d = max 2 \<lfloor>fmul (of_int (mb_count p)) (to_double 0.5)\<rfloor>
              \<and> (0 \<le> mb_count p \<and> mb_count p < 2 ^ 53
                   \<longrightarrow> countToUse p d = max 2 (mb_count p div 2)))
       \<and> (autoReduce p \<and> has_window d \<and> \<not> mb_prefersReduced d \<and> \<not> lowMemory d
            \<and> \<not> fewCores d
            \<longrightarrow> countToUse p d = mb_count p)"
proof -
  note m = mounted_count[OF assms]
  have c0: "int (nat (countToUse p d)) = countToUse p d" using m(2) by simp
  have a1: "int (length (blobs (fst sk))) = countToUse p d"
    unfolding m(1) by (simp add: mb_mount_fields seed_fields m(2))
  have r: "length (blobs (fst (mb_run p d rnd es sk))) = nat (countToUse p d)"
    unfolding m(1) by (rule count_inv_run)
  have a2: "int (length (blobs (fst (mb_run p d rnd es sk)))) = countToUse p d"
    unfolding r by (rule c0)
  have a3: "int (length (blobs (fst (seed p d rnd j w h (fst (mb_run p d rnd es sk))))))
              = countToUse p d"
    by (simp add: seed_fields m(2))
  have a4: "render_blobEls p d = Inr (length (blobs (fst (mb_run p d rnd es sk))))"
    unfolding r by (rule m(4))
  have b1: "\<not> (autoReduce p \<and> has_window d) \<longrightarrow> countToUse p d = mb_count p"
    using countToUse_plain[of p d] by blast
  have b2: "autoReduce p \<and> has_window d \<and> mb_prefersReduced d
            \<longrightarrow> countToUse p d = max 2 \<lfloor>fmul (of_int (mb_count p)) (to_double 0.35)\<rfloor>"
    using countToUse_reduced[of p d] by blast
  have b3: "autoReduce p \<and> has_window d \<and> \<not> mb_prefersReduced d \<and> (lowMemory d \<or> fewCores d)
            \<longrightarrow> countToUse p d = max 2 \<lfloor>fmul (of_int (mb_count p)) (to_double 0.5)\<rfloor>
              \<and> (0 \<le> mb_count p \<and> mb_count p < 2 ^ 53
                   \<longrightarrow> countToUse p d = max 2 (mb_count p div 2))"
    using countToUse_low[of p d] fmul_half[of "mb_count p"] by auto
  have b4: "autoReduce p \<and> has_window d \<and> \<not> mb_prefersReduced d \<and> \<not> lowMemory d
            \<and> \<not> fewCores d
            \<longrightarrow> countToUse p d = mb_count p"
    using countToUse_ordinary[of p d] by blast
  show ?thesis using a1 a2 a3 a4 b1 b2 b3 b4 by blast
qed

theorem blob_count_is_countToUse_witness:
  "mb_component page_props device_plain (\<lambda>_. 1 / 2) 0 800 600 mb_initial_refs
     = Inr (mb_mount page_props device_plain (\<lambda>_. 1 / 2) 0 800 600 mb_initial_refs)
   \<and> mb_count page_props = 6
   \<and> int (length (blobs (fst (mb_run page_props device_plain (\<lambda>_. 1 / 2)
                                 [MbTick 16, MbResize 640 480, MbTick 33]
                                 (mb_mount page_props device_plain (\<lambda>_. 1 / 2) 0 800 600
                                    mb_initial_refs))))) = 6
   \<and> render_blobEls page_props device_plain = Inr 6
   \<and> int (length (blobs (fst (mb_run page_props device_reduced (\<lambda>_. 1 / 2)
                                 [MbTick 16, MbResize 640 480, MbTick 33]
                                 (mb_mount page_props device_reduced (\<lambda>_. 1 / 2) 0 800 600
                                    mb_initial_refs))))) = 2
   \<and> max 2 \<lfloor>fmul (of_int (mb_count page_props)) (to_double 0.35)\<rfloor> = 2
   \<and> int (length (blobs (fst (mb_run page_props device_low_memory (\<lambda>_. 1 / 2)
                                 [MbTick 16, MbResize 640 480, MbTick 33]
                                 (mb_mount page_props device_low_memory (\<lambda>_. 1 / 2) 0 800 600
                                    mb_initial_refs))))) = 3
   \<and> max 2 (mb_count page_props div 2) = 3
   \<and> int (length (blobs (fst (mb_run mb_default_props device_reduced (\<lambda>_. 1 / 2)
                                 [MbTick 16, MbResize 640 480, MbTick 33]
                                 (mb_mount mb_default_props device_reduced (\<lambda>_. 1 / 2) 0 800 600
                                    mb_initial_refs))))) = mb_count mb_default_props"
proof -
  let ?es = "[MbTick 16, MbResize 640 480, MbTick 33]"
  have c: "mb_count page_props = 6" by (simp add: page_props_def)
  have h1: "mb_component page_props device_plain (\<lambda>_. 1 / 2) 0 800 600 mb_initial_refs
              = Inr (mb_mount page_props device_plain (\<lambda>_. 1 / 2) 0 800 600 mb_initial_refs)"
    by (simp add: render_mounts_iff countToUse_page_plain)
  have h2: "mb_component page_props device_reduced (\<lambda>_. 1 / 2) 0 800 600 mb_initial_refs
              = Inr (mb_mount page_props device_reduced (\<lambda>_. 1 / 2) 0 800 600 mb_initial_refs)"
    by (simp add: render_mounts_iff countToUse_page_reduced)
  have h3: "mb_component page_props device_low_memory (\<lambda>_. 1 / 2) 0 800 600 mb_initial_refs
              = Inr (mb_mount page_props device_low_memory (\<lambda>_. 1 / 2) 0 800 600
                       mb_initial_refs)"
    by (simp add: render_mounts_iff countToUse_page_low)
  have d4: "countToUse mb_default_props device_reduced = 6"
    by (simp add: countToUse_def quality_def mb_default_props_def)
  have h4: "mb_component mb_default_props device_reduced (\<lambda>_. 1 / 2) 0 800 600 mb_initial_refs
              = Inr (mb_mount mb_default_props device_reduced (\<lambda>_. 1 / 2) 0 800 600
                       mb_initial_refs)"
    by (simp add: render_mounts_iff d4)
  have g1: "autoReduce page_props \<and> has_window device_plain \<and> \<not> mb_prefersReduced device_plain
            \<and> \<not> lowMemory device_plain \<and> \<not> fewCores device_plain"
    by (simp add: page_props_def device_plain_def mb_prefersReduced_def lowMemory_def
          fewCores_def)
  have g2: "autoReduce page_props \<and> has_window device_reduced \<and> mb_prefersReduced device_reduced"
    by (simp add: page_props_def device_reduced_def device_plain_def mb_prefersReduced_def)
  have g3: "autoReduce page_props \<and> has_window device_low_memory
            \<and> \<not> mb_prefersReduced device_low_memory
            \<and> (lowMemory device_low_memory \<or> fewCores device_low_memory)
            \<and> 0 \<le> mb_count page_props \<and> mb_count page_props < 2 ^ 53"
    by (simp add: page_props_def device_low_memory_def device_plain_def mb_prefersReduced_def
          lowMemory_def)
  have g4: "\<not> (autoReduce mb_default_props \<and> has_window device_reduced)"
    by (simp add: mb_default_props_def)
  note t1 = blob_count_is_countToUse[OF h1, of ?es]
  note t2 = blob_count_is_countToUse[OF h2, of ?es]
  note t3 = blob_count_is_countToUse[OF h3, of ?es]
  note t4 = blob_count_is_countToUse[OF h4, of ?es]
  have r1: "countToUse page_props device_plain = mb_count page_props"
    using t1 g1 by blast
  have r2: "countToUse page_props device_reduced
              = max 2 \<lfloor>fmul (of_int (mb_count page_props)) (to_double 0.35)\<rfloor>"
    using t2 g2 by blast
  have r3: "countToUse page_props device_low_memory = max 2 (mb_count page_props div 2)"
    using t3 g3 by blast
  have r4: "countToUse mb_default_props device_reduced = mb_count mb_default_props"
    using t4 g4 by blast
  have l1: "int (length (blobs (fst (mb_run page_props device_plain (\<lambda>_. 1 / 2) ?es
                (mb_mount page_props device_plain (\<lambda>_. 1 / 2) 0 800 600 mb_initial_refs)))))
              = countToUse page_props device_plain"
    using t1 by blast
  have l2: "int (length (blobs (fst (mb_run page_props device_reduced (\<lambda>_. 1 / 2) ?es
                (mb_mount page_props device_reduced (\<lambda>_. 1 / 2) 0 800 600 mb_initial_refs)))))
              = countToUse page_props device_reduced"
    using t2 by blast
  have l3: "int (length (blobs (fst (mb_run page_props device_low_memory (\<lambda>_. 1 / 2) ?es
                (mb_mount page_props device_low_memory (\<lambda>_. 1 / 2) 0 800 600
                   mb_initial_refs)))))
              = countToUse page_props device_low_memory"
    using t3 by blast
  have l4: "int (length (blobs (fst (mb_run mb_default_props device_reduced (\<lambda>_. 1 / 2) ?es
                (mb_mount mb_default_props device_reduced (\<lambda>_. 1 / 2) 0 800 600
                   mb_initial_refs)))))
              = countToUse mb_default_props device_reduced"
    using t4 by blast
  have e1: "render_blobEls page_props device_plain
              = Inr (length (blobs (fst (mb_run page_props device_plain (\<lambda>_. 1 / 2) ?es
                  (mb_mount page_props device_plain (\<lambda>_. 1 / 2) 0 800 600
                     mb_initial_refs)))))"
    using t1 by blast
  have n1: "length (blobs (fst (mb_run page_props device_plain (\<lambda>_. 1 / 2) ?es
                (mb_mount page_props device_plain (\<lambda>_. 1 / 2) 0 800 600 mb_initial_refs))))
              = 6"
    using l1 unfolding r1 c by simp
  have q2: "max 2 \<lfloor>fmul (of_int (mb_count page_props)) (to_double 0.35)\<rfloor> = 2"
    using r2 unfolding countToUse_page_reduced by simp
  have q3: "max 2 (mb_count page_props div 2) = 3"
    unfolding c by simp
  show ?thesis
    unfolding l2 l3 l4 r2 r3 r4 q2 q3 e1 n1 using h1 c by simp
qed

section \<open>Properties of the particle loader\<close>

lemma loader_quiet_step: "loader_quiet st \<Longrightarrow> loader_quiet (loader_step p e st)"
  by (cases e) (simp_all add: loader_quiet_def loader_cleanup_def Let_def)

lemma loader_quiet_run: "loader_quiet st \<Longrightarrow> loader_quiet (loader_run p es st)"
  by (induction es arbitrary: st) (simp_all add: loader_quiet_step)

text \<open>
  C5. If the query for reduced motion answers true when the effect runs, then after the
  effect and after any later events (imports resolving or failing, frame ticks, resizes,
  the cleanup) the container still holds the static SVG, Three.js was not loaded, no
  target was sampled, and \<open>requestAnimationFrame\<close> was never called.
\<close>

theorem reduced_motion_keeps_fallback:
  assumes "has_window d" "has_matchMedia d" "reduced_motion d"
  shows "container (loader_run p es (loader_effect d loader_render)) = [FallbackSvg]
       \<and> \<not> three_loaded (loader_run p es (loader_effect d loader_render))
       \<and> \<not> targets_sampled (loader_run p es (loader_effect d loader_render))
       \<and> ld_requests (loader_run p es (loader_effect d loader_render)) = 0
       \<and> ld_frames (loader_run p es (loader_effect d loader_render)) = []"
proof -
  have "loader_effect d loader_render = loader_render"
    using assms by (simp add: loader_effect_def prefersReduced_def)
  moreover have "loader_quiet loader_render"
    by (simp add: loader_quiet_def loader_render_def)
  ultimately have "loader_quiet (loader_run p es (loader_effect d loader_render))"
    using loader_quiet_run by simp
  then show ?thesis by (simp add: loader_quiet_def)
qed

theorem reduced_motion_keeps_fallback_witness:
  "has_window device_reduced \<and> has_matchMedia device_reduced \<and> reduced_motion device_reduced
   \<and> container (loader_run loader_default_props
                   [LdImportsResolved True 5, LdTick 16 True, LdResize, LdTick 33 True, LdCleanup]
                   (loader_effect device_reduced loader_render)) = [FallbackSvg]
   \<and> \<not> three_loaded (loader_run loader_default_props
                   [LdImportsResolved True 5, LdTick 16 True, LdResize, LdTick 33 True, LdCleanup]
                   (loader_effect device_reduced loader_render))
   \<and> \<not> targets_sampled (loader_run loader_default_props
                   [LdImportsResolved True 5, LdTick 16 True, LdResize, LdTick 33 True, LdCleanup]
                   (loader_effect device_reduced loader_render))
   \<and> ld_requests (loader_run loader_default_props
                   [LdImportsResolved True 5, LdTick 16 True, LdResize, LdTick 33 True, LdCleanup]
                   (loader_effect device_reduced loader_render)) = 0
   \<and> ld_frames (loader_run loader_default_props
                   [LdImportsResolved True 5, LdTick 16 True, LdResize, LdTick 33 True, LdCleanup]
                   (loader_effect device_reduced loader_render)) = []"
proof -
  have h1: "has_window device_reduced" by (simp add: device_reduced_def device_plain_def)
  have h2: "has_matchMedia device_reduced" by (simp add: device_reduced_def device_plain_def)
  have h3: "reduced_motion device_reduced" by (simp add: device_reduced_def device_plain_def)
  show ?thesis
    using h1 h2 h3
      reduced_motion_keeps_fallback[OF h1 h2 h3, of loader_default_props
        "[LdImportsResolved True 5, LdTick 16 True, LdResize, LdTick 33 True, LdCleanup]"]
    by blast
qed

text \<open>Without the preference the same events do start Three.js and the frame loop.\<close>

lemma full_motion_starts_loop:
  "ld_requests (loader_run loader_default_props [LdImportsResolved True 5, LdTick 16 True]
                  (loader_effect device_plain loader_render)) = 2
   \<and> container (loader_run loader_default_props [LdImportsResolved True 5, LdTick 16 True]
                  (loader_effect device_plain loader_render)) = [RendererCanvas]"
  by (simp add: loader_effect_def prefersReduced_def device_plain_def loader_render_def
        initThree_def ld_request_frame_def ld_animate_def loader_default_props_def Let_def)

section \<open>Properties of the contact form\<close>

lemma validate_email_entry:
  "\<not> re_match email_re (trim (email v)) \<Longrightarrow>
   map_of (validate v) ''email'' =
     Some (if trim (email v) = [] then ''Please enter your email''
           else ''Please enter a valid email'')"
  by (simp add: validate_def)

lemma validate_honey_entry:
  "honey v \<noteq> [] \<Longrightarrow> map_of (validate v) ''honey'' = Some ''Spam detected''"
  by (simp add: validate_def)

lemma handleSubmit_blocked:
  "validate (cform st) \<noteq> [] \<Longrightarrow>
   requests (handleSubmit base resp st) = requests st
   \<and> cerrors (handleSubmit base resp st) = validate (cform st)
   \<and> (\<exists>t. cstatus (handleSubmit base resp st) = Some (ValidationError t))
   \<and> cform (handleSubmit base resp st) = cform st"
  by (simp add: handleSubmit_def Let_def)

lemma handleSubmit_sent:
  "validate (cform st) = [] \<Longrightarrow>
   requests (handleSubmit base resp st) =
     requests st @ [\<lparr>req_url = CONTACT_URL base, req_method = ''POST'',
                     req_headers = [(''Content-Type'', ''application/json'')],
                     req_body = JSON_stringify (payload (cform st))\<rparr>]"
  by (cases resp) (simp_all add: handleSubmit_def Let_def)

text \<open>
  C6. If the trimmed email does not match the pattern of \<open>validate\<close> (as
  \<open>not-an-email\<close> does not), then whatever the other fields, the state of the form and
  the answer a server would give, \<open>handleSubmit\<close> makes no request, the errors carry a
  message for the email field, and the status is a validation error.
\<close>

theorem invalid_email_blocks_submit:
  assumes "\<not> re_match email_re (trim (email (cform st)))"
  shows "requests (handleSubmit base resp st) = requests st
       \<and> map_of (cerrors (handleSubmit base resp st)) ''email'' =
           Some (if trim (email (cform st)) = [] then ''Please enter your email''
                 else ''Please enter a valid email'')
       \<and> (\<exists>t. cstatus (handleSubmit base resp st) = Some (ValidationError t))"
proof -
  have "map_of (validate (cform st)) ''email'' \<noteq> None"
    using validate_email_entry[OF assms] by simp
  then have "validate (cform st) \<noteq> []" by auto
  then show ?thesis
    using handleSubmit_blocked[of st base resp] validate_email_entry[OF assms] by simp
qed

lemma not_an_email: "\<not> re_match email_re (trim ''not-an-email'')"
  by (simp add: email_re_def trim_def is_space_def)

theorem invalid_email_blocks_submit_witness:
  "\<not> re_match email_re (trim (email (cform (contact_initial\<lparr>cform := sample_form\<rparr>))))
   \<and> requests (handleSubmit ''https://example.org/'' (Json True 200 None None None)
                 (contact_initial\<lparr>cform := sample_form\<rparr>)) = []
   \<and> map_of (cerrors (handleSubmit ''https://example.org/'' (Json True 200 None None None)
                        (contact_initial\<lparr>cform := sample_form\<rparr>))) ''email''
       = Some ''Please enter a valid email''"
proof -
  have h: "\<not> re_match email_re (trim (email (cform (contact_initial\<lparr>cform := sample_form\<rparr>))))"
    using not_an_email by (simp add: sample_form_def)
  have e: "trim (email (cform (contact_initial\<lparr>cform := sample_form\<rparr>))) \<noteq> []"
    by (simp add: sample_form_def trim_def is_space_def)
  have r: "requests (contact_initial\<lparr>cform := sample_form\<rparr>) = []"
    by (simp add: contact_initial_def)
  show ?thesis
    using h e r
      invalid_email_blocks_submit[OF h, of "''https://example.org/''" "Json True 200 None None None"]
    by simp
qed

text \<open>A string without \<open>@\<close> never matches the pattern.\<close>

lemma re_match_tail_needs_at:
  "re_match [Plus NotSpaceAt, One (Lit CHR ''@''), Plus NotSpaceAt, One (Lit CHR ''.''),
             Plus NotSpaceAt] s \<Longrightarrow> CHR ''@'' \<in> set s"
proof (induction s)
  case Nil
  then show ?case by simp
next
  case (Cons c cs)
  then show ?case by (cases cs) auto
qed

lemma no_at_is_invalid: "CHR ''@'' \<notin> set s \<Longrightarrow> \<not> re_match email_re s"
  using re_match_tail_needs_at by (auto simp: email_re_def)

text \<open>
  C10. A honeypot that is not empty puts \<open>Spam detected\<close> into the errors and stops the
  submit before any request, whatever the visible fields. When validation passes, the
  one request made is a POST whose body is the JSON of the object of name, email, subject
  and message, in this order, and the honeypot was empty.
\<close>

theorem honeypot_blocks_and_is_not_sent:
  "(honey (cform st) \<noteq> [] \<longrightarrow>
      map_of (cerrors (handleSubmit base resp st)) ''honey'' = Some ''Spam detected''
      \<and> requests (handleSubmit base resp st) = requests st
      \<and> (\<exists>t. cstatus (handleSubmit base resp st) = Some (ValidationError t)))
   \<and> (validate (cform st) = [] \<longrightarrow>
      requests (handleSubmit base resp st) =
        requests st @
          [\<lparr>req_url = CONTACT_URL base, req_method = ''POST'',
            req_headers = [(''Content-Type'', ''application/json'')],
            req_body = JSON_stringify
              [(''name'', name (cform st)), (''email'', email (cform st)),
               (''subject'', subject (cform st)), (''message'', message (cform st))]\<rparr>]
      \<and> honey (cform st) = [])"
proof -
  have a: "honey (cform st) \<noteq> [] \<Longrightarrow> validate (cform st) \<noteq> []"
    using validate_honey_entry[of "cform st"] by auto
  have b: "validate (cform st) = [] \<Longrightarrow> honey (cform st) = []"
    using a by blast
  show ?thesis
    using a b handleSubmit_blocked[of st base resp] handleSubmit_sent[of st base resp]
      validate_honey_entry[of "cform st"]
    by (auto simp: payload_def)
qed

lemma good_form_valid: "validate good_form = []"
  by (simp add: validate_def good_form_def email_re_def trim_def is_space_def)

theorem honeypot_blocks_and_is_not_sent_witness:
  "honey (cform (contact_initial\<lparr>cform := good_form\<lparr>honey := ''bot''\<rparr>\<rparr>)) \<noteq> []
   \<and> map_of (cerrors (handleSubmit ''https://example.org/'' NetworkFailure
                        (contact_initial\<lparr>cform := good_form\<lparr>honey := ''bot''\<rparr>\<rparr>))) ''honey''
       = Some ''Spam detected''
   \<and> requests (handleSubmit ''https://example.org/'' NetworkFailure
                 (contact_initial\<lparr>cform := good_form\<lparr>honey := ''bot''\<rparr>\<rparr>)) = []
   \<and> validate (cform (contact_initial\<lparr>cform := good_form\<rparr>)) = []
   \<and> map req_body (requests (handleSubmit ''https://example.org/'' NetworkFailure
                                (contact_initial\<lparr>cform := good_form\<rparr>)))
       = [''{\"name\":\"Ada\",\"email\":\"ada@example.org\",\"subject\":\"Hello\",\"message\":\"A message long enough\"}'']"
proof -
  have h1: "honey (cform (contact_initial\<lparr>cform := good_form\<lparr>honey := ''bot''\<rparr>\<rparr>)) \<noteq> []"
    by simp
  have h2: "validate (cform (contact_initial\<lparr>cform := good_form\<rparr>)) = []"
    using good_form_valid by simp
  have r: "requests (contact_initial\<lparr>cform := good_form\<lparr>honey := ''bot''\<rparr>\<rparr>) = []"
          "requests (contact_initial\<lparr>cform := good_form\<rparr>) = []"
    by (simp_all add: contact_initial_def)
  have body: "JSON_stringify
              [(''name'', name good_form), (''email'', email good_form),
               (''subject'', subject good_form), (''message'', message good_form)]
        = ''{\"name\":\"Ada\",\"email\":\"ada@example.org\",\"subject\":\"Hello\",\"message\":\"A message long enough\"}''"
    by (simp add: JSON_stringify_def json_string_def json_char_def good_form_def)
  show ?thesis
    using h1 h2 r body
      honeypot_blocks_and_is_not_sent[of "contact_initial\<lparr>cform := good_form\<lparr>honey := ''bot''\<rparr>\<rparr>"
        "''https://example.org/''" NetworkFailure]
      honeypot_blocks_and_is_not_sent[of "contact_initial\<lparr>cform := good_form\<rparr>"
        "''https://example.org/''" NetworkFailure]
    by simp
qed

section \<open>Properties of the constellation overlay\<close>

lemma rebuild_fields:
  "co_frames (rebuild p pg st) = co_frames st"
  "co_timers (rebuild p pg st) = co_timers st"
  "co_next_handle (rebuild p pg st) = co_next_handle st"
  "rebuildScheduled (rebuild p pg st) = rebuildScheduled st"
  "pending (rebuild p pg st) = pending st"
  "svg_present (rebuild p pg st) = svg_present st"
  "mo_connected (rebuild p pg st) = mo_connected st"
  "co_listeners (rebuild p pg st) = co_listeners st"
  "node_listeners (rebuild p pg st) = node_listeners st"
  "co_rafRef (rebuild p pg st) = co_rafRef st"
  "intervalId (rebuild p pg st) = intervalId st"
  "rebuilds (rebuild p pg st) = (if svg_present st then Suc (rebuilds st) else rebuilds st)"
  "observer_rebuilds (rebuild p pg st) = observer_rebuilds st"
  by (simp_all add: rebuild_def updatePositions_def Let_def)

lemma updatePositions_fields:
  "co_frames (updatePositions pg st) = co_frames st"
  "co_timers (updatePositions pg st) = co_timers st"
  "co_next_handle (updatePositions pg st) = co_next_handle st"
  "rebuildScheduled (updatePositions pg st) = rebuildScheduled st"
  "pending (updatePositions pg st) = pending st"
  "svg_present (updatePositions pg st) = svg_present st"
  "mo_connected (updatePositions pg st) = mo_connected st"
  "co_listeners (updatePositions pg st) = co_listeners st"
  "node_listeners (updatePositions pg st) = node_listeners st"
  "rebuilds (updatePositions pg st) = rebuilds st"
  "observer_rebuilds (updatePositions pg st) = observer_rebuilds st"
  by (simp_all add: updatePositions_def)

lemma on_mutation_fields:
  "co_frames (on_mutation st) =
     (if rebuildScheduled st then co_frames st
      else co_frames st @ [(co_next_handle st, MoRebuild)])"
  "co_next_handle (on_mutation st) =
     (if rebuildScheduled st then co_next_handle st else Suc (co_next_handle st))"
  "rebuildScheduled (on_mutation st) = True"
  "rebuilds (on_mutation st) = rebuilds st"
  "observer_rebuilds (on_mutation st) = observer_rebuilds st"
  "svg_present (on_mutation st) = svg_present st"
  "mo_connected (on_mutation st) = mo_connected st"
  "pending (on_mutation st) = pending st"
  "co_timers (on_mutation st) = co_timers st"
  by (simp_all add: on_mutation_def co_request_frame_def)

lemma co_inv_on_mutation: "co_inv st \<Longrightarrow> co_inv (on_mutation st)"
  by (auto simp: co_inv_def mo_pending_def on_mutation_fields list_all_iff)


text \<open>
  Running pending callbacks, each once: with the overlay element present, the rebuilds
  that run are the rebuild callbacks of the list, and those counted for the observer are
  the observer's callbacks of the list.
\<close>

lemma co_call_fields:
  "svg_present (co_call p pg cb st) = svg_present st"
  "rebuilds (co_call p pg cb st) =
     (if is_rebuild cb \<or> cb = TimeoutRebuild
      then (if svg_present st then Suc (rebuilds st) else rebuilds st) else rebuilds st)"
  "co_frames (co_call p pg cb st) =
     (if cb = RafLoop \<and> svg_present st then co_frames st @ [(co_next_handle st, RafLoop)]
      else co_frames st)"
  "co_next_handle (co_call p pg cb st) =
     (if cb = RafLoop \<and> svg_present st then Suc (co_next_handle st) else co_next_handle st)"
  "observer_rebuilds (co_call p pg cb st) =
     (if cb = MoRebuild \<and> svg_present st then Suc (observer_rebuilds st)
      else observer_rebuilds st)"
  "rebuildScheduled (co_call p pg cb st) = (cb \<noteq> MoRebuild \<and> rebuildScheduled st)"
  "pending (co_call p pg cb st) = (cb \<noteq> RecalcRebuild \<and> pending st)"
  by (cases cb; simp add: is_rebuild_def rebuild_fields updatePositions_fields co_request_frame_def)+




subsection \<open>The invariant\<close>

lemma filter_removeAll_count:
  "distinct xs \<Longrightarrow> f \<in> set xs \<Longrightarrow> P f \<Longrightarrow>
   Suc (length (filter P (removeAll f xs))) = length (filter P xs)"
  by (induction xs) auto

lemma co_inv_cong:
  "co_frames st' = co_frames st \<Longrightarrow> co_next_handle st' = co_next_handle st \<Longrightarrow>
   rebuildScheduled st' = rebuildScheduled st \<Longrightarrow> co_inv st' = co_inv st"
  by (simp add: co_inv_def mo_pending_def)

lemma filter_removeAll_same:
  "\<not> P f \<Longrightarrow> filter P (removeAll f xs) = filter P xs"
  by (induction xs) auto

lemma co_inv_call:
  assumes "co_inv st" "f \<in> set (co_frames st)"
  shows "co_inv (co_call p pg (snd f) (st\<lparr>co_frames := removeAll f (co_frames st)\<rparr>))"
proof -
  have d: "distinct (map fst (co_frames st))"
    and lt: "list_all (\<lambda>g. fst g < co_next_handle st) (co_frames st)"
    and mo: "mo_pending st = (if rebuildScheduled st then 1 else 0)"
    using assms(1) by (simp_all add: co_inv_def)
  have dx: "distinct (co_frames st)" using d by (rule distinct_map[THEN iffD1, THEN conjunct1])
  have d1: "distinct (map fst (removeAll f (co_frames st)))"
    using d by (simp add: removeAll_filter_not_eq distinct_map_filter)
  have lt1: "list_all (\<lambda>g. fst g < co_next_handle st) (removeAll f (co_frames st))"
    using lt by (auto simp: list_all_iff)
  show ?thesis
  proof (cases "snd f")
    case RafLoop
    then have "filter (\<lambda>g. snd g = MoRebuild) (removeAll f (co_frames st))
               = filter (\<lambda>g. snd g = MoRebuild) (co_frames st)"
      by (simp add: filter_removeAll_same)
    moreover have "\<And>g. g \<in> set (co_frames st) \<Longrightarrow> fst g < co_next_handle st"
      using lt by (simp add: list_all_iff)
    then have "co_next_handle st \<notin> fst ` set (co_frames st)" by fastforce
    then have "co_next_handle st \<notin> fst ` set (removeAll f (co_frames st))" by auto
    moreover have "list_all (\<lambda>g. fst g < Suc (co_next_handle st)) (removeAll f (co_frames st))"
      using lt1 by (simp add: list_all_iff less_Suc_eq)
    ultimately show ?thesis using RafLoop d1 lt1 mo
      by (cases "rebuildScheduled st"; simp add: co_inv_def mo_pending_def co_request_frame_def)
  next
    case MoRebuild
    then have c: "Suc (length (filter (\<lambda>g. snd g = MoRebuild) (removeAll f (co_frames st))))
               = length (filter (\<lambda>g. snd g = MoRebuild) (co_frames st))"
      using filter_removeAll_count[OF dx assms(2), of "\<lambda>g. snd g = MoRebuild"] by simp
    have "mo_pending st = 1" using mo c by (simp add: mo_pending_def split: if_splits)
    then have "length (filter (\<lambda>g. snd g = MoRebuild) (removeAll f (co_frames st))) = 0"
      using c by (simp add: mo_pending_def)
    then show ?thesis using MoRebuild d1 lt1
      by (simp add: co_inv_def mo_pending_def rebuild_fields)
  next
    case RecalcRebuild
    then have "filter (\<lambda>g. snd g = MoRebuild) (removeAll f (co_frames st))
               = filter (\<lambda>g. snd g = MoRebuild) (co_frames st)"
      by (simp add: filter_removeAll_same)
    then show ?thesis using RecalcRebuild d1 lt1 mo
      by (simp add: co_inv_def mo_pending_def rebuild_fields)
  next
    case TimeoutRebuild
    then have "filter (\<lambda>g. snd g = MoRebuild) (removeAll f (co_frames st))
               = filter (\<lambda>g. snd g = MoRebuild) (co_frames st)"
      by (simp add: filter_removeAll_same)
    then show ?thesis using TimeoutRebuild d1 lt1 mo
      by (simp add: co_inv_def mo_pending_def rebuild_fields)
  next
    case IntervalUpdate
    then have "filter (\<lambda>g. snd g = MoRebuild) (removeAll f (co_frames st))
               = filter (\<lambda>g. snd g = MoRebuild) (co_frames st)"
      by (simp add: filter_removeAll_same)
    then show ?thesis using IntervalUpdate d1 lt1 mo
      by (simp add: co_inv_def mo_pending_def updatePositions_fields)
  qed
qed


subsection \<open>Mutations within one frame\<close>



lemma mounted_overlay_eq:
  "mounted_overlay =
    \<lparr>svg_present = True,
     nodesRef = [\<lparr>node_el = 7, node_cx = 10, node_cy = 10, node_idx = 0, has_handlers = True\<rparr>],
     linksRef = [], co_rafRef = 3, rebuildScheduled = False, pending = False, intervalId = 4,
     co_pointer = None, co_frames = [(3, RafLoop)],
     co_timers = [(1, TimeoutRebuild), (2, TimeoutRebuild), (4, IntervalUpdate)],
     co_next_handle = 5, co_listeners = co_window_listeners,
     node_listeners = [(7, ''mouseenter''), (7, ''focus''), (7, ''mouseleave''), (7, ''blur'')],
     mo_connected = True, rebuilds = 1, observer_rebuilds = 0\<rparr>"
  by (simp add: mounted_overlay_def co_mount_def rebuild_def updatePositions_def
        co_initial_refs_def one_node_page_def co_set_timer_def attachNodeListeners_def
        co_request_frame_def build_links_def node_events_def Let_def)



text \<open>
  C8 fails on the overlay. A mutation delivered before the cleanup leaves its rebuild
  among the pending frame callbacks: the cleanup cancels only the handle in \<open>rafRef\<close>.
  The two timeouts of the mount stay as well. A frame tick after the cleanup then runs
  the rebuild, or, with the overlay element gone, still resets \<open>rebuildScheduled\<close>. And
  once a rebuild has replaced the node objects, \<open>detachNodeListeners\<close> finds no handlers
  on them, so the four listeners attached at the mount stay on the page element.
\<close>

theorem overlay_teardown_leaks:
  "co_frames (co_cleanup (co_run co_default_props [CoMutation] mounted_overlay))
     = [(5, MoRebuild)]
   \<and> co_timers (co_cleanup (co_run co_default_props [CoMutation] mounted_overlay))
     = [(1, TimeoutRebuild), (2, TimeoutRebuild)]
   \<and> rebuilds (co_step co_default_props (CoTick one_node_page)
                 (co_cleanup (co_run co_default_props [CoMutation] mounted_overlay)))
     = Suc (rebuilds (co_cleanup (co_run co_default_props [CoMutation] mounted_overlay)))
   \<and> rebuildScheduled (co_cleanup (co_run co_default_props [CoMutation, CoDetachRef] mounted_overlay))
   \<and> \<not> rebuildScheduled (co_step co_default_props (CoTick one_node_page)
         (co_cleanup (co_run co_default_props [CoMutation, CoDetachRef] mounted_overlay)))
   \<and> node_listeners (co_cleanup (co_run co_default_props [CoMutation, CoTick one_node_page]
                                    mounted_overlay))
     = [(7, ''mouseenter''), (7, ''focus''), (7, ''mouseleave''), (7, ''blur'')]"
  by (simp add: mounted_overlay_eq on_mutation_def co_request_frame_def co_cleanup_def
        detachNodeListeners_def node_events_def co_window_listeners_def rebuild_def
        updatePositions_def one_node_page_def build_links_def Let_def)

section \<open>Teardown of the starfield and of the metaballs\<close>

lemma stars_live_step:
  assumes "stars_live (fst sk)"
  shows "stars_live (fst (stars_step p hc rnd e sk))"
proof (cases sk)
  case (Pair st k)
  then have l: "frames st = [rafRef st]" "listeners st = stars_listeners"
    using assms by (simp_all add: stars_live_def)
  show ?thesis
  proof (cases e)
    case (Tick now)
    then show ?thesis using Pair l tick_single[OF l(1), of p hc rnd now k]
      by (simp add: stars_live_def draw_fields)
  next
    case (Resize lay dpr now)
    then show ?thesis using Pair l by (simp add: stars_live_def resize_fields)
  next
    case (Scroll lay)
    then show ?thesis using Pair l by (simp add: stars_live_def updateExcludeRects_def)
  next
    case (PointerMove cx cy lay)
    then show ?thesis using Pair l by (simp add: stars_live_def)
  next
    case (VisibilityChange hid)
    then show ?thesis using Pair l by (simp add: stars_live_def)
  qed
qed

lemma stars_live_run:
  "stars_live (fst sk) \<Longrightarrow> stars_live (fst (stars_run p hc rnd es sk))"
  by (induction es arbitrary: sk) (simp_all add: stars_live_step)

text \<open>
  The teardown of the starfield is complete: after the mount on fresh refs, any events and the
  cleanup, no frame callback is pending and no listener is attached, and no event changes
  the state any more.
\<close>

lemma stars_teardown_clean:
  assumes "frames st = []" "listeners st = []"
  shows "frames (stars_cleanup (fst (stars_run p hc rnd es (stars_mount p hc rnd k lay dpr now st)))) = []"
    and "listeners (stars_cleanup (fst (stars_run p hc rnd es (stars_mount p hc rnd k lay dpr now st)))) = []"
    and "stars_step p hc rnd e
           (stars_cleanup (fst (stars_run p hc rnd es (stars_mount p hc rnd k lay dpr now st))), j)
         = (stars_cleanup (fst (stars_run p hc rnd es (stars_mount p hc rnd k lay dpr now st))), j)"
proof -
  let ?st = "fst (stars_run p hc rnd es (stars_mount p hc rnd k lay dpr now st))"
  have "stars_live (fst (stars_mount p hc rnd k lay dpr now st))"
    using assms by (simp add: stars_live_def mount_fields)
  then have live: "stars_live ?st" by (rule stars_live_run)
  show f: "frames (stars_cleanup ?st) = []"
    using live by (simp add: stars_live_def stars_cleanup_def)
  show l: "listeners (stars_cleanup ?st) = []"
    using live by (simp add: stars_live_def stars_cleanup_def stars_listeners_def)
  show "stars_step p hc rnd e (stars_cleanup ?st, j) = (stars_cleanup ?st, j)"
    using f l by (cases e) simp_all
qed

lemma mb_tick_single:
  "mb_frames st = [mb_rafRef st] \<Longrightarrow>
   mb_step p d rnd (MbTick ts) (st, k) = (animate ts (st\<lparr>mb_frames := []\<rparr>), k)"
  by simp

lemma mb_live_step:
  assumes "mb_live d (fst sk)"
  shows "mb_live d (fst (mb_step p d rnd e sk))"
proof (cases sk)
  case (Pair st k)
  then have l: "mb_live d st" using assms by simp
  then have f: "mb_frames st = [mb_rafRef st]" by (simp add: mb_live_def)
  show ?thesis
  proof (cases e)
    case (MbTick ts)
    then show ?thesis using Pair l mb_tick_single[OF f, of p d rnd ts k]
      by (simp add: mb_live_def animate_fields)
  next
    case (MbResize bw bh)
    then show ?thesis using Pair l by (simp add: mb_live_def seed_fields)
  next
    case (MbVisibility hid)
    then show ?thesis using Pair l by (simp add: mb_live_def Let_def)
  qed
qed

lemma mb_live_run: "mb_live d (fst sk) \<Longrightarrow> mb_live d (fst (mb_run p d rnd es sk))"
  by (induction es arbitrary: sk) (simp_all add: mb_live_step)

text \<open>
  So is that of the metaballs: after the mount on fresh refs, any events and the cleanup, no frame
  callback is pending, the observer is stopped and no listener is attached; a later frame
  tick or resize changes nothing, and a change of visibility changes only what the
  document reports.
\<close>

lemma mb_teardown_clean:
  assumes "mb_frames st = []" "mb_listeners st = []" "\<not> observing st" "mb_next_handle st \<noteq> 0"
  shows "mb_frames (mb_cleanup (fst (mb_run p d rnd es (mb_mount p d rnd k bw bh st)))) = []"
    and "mb_listeners (mb_cleanup (fst (mb_run p d rnd es (mb_mount p d rnd k bw bh st)))) = []"
    and "\<not> observing (mb_cleanup (fst (mb_run p d rnd es (mb_mount p d rnd k bw bh st))))"
    and "mb_step p d rnd (MbTick ts)
           (mb_cleanup (fst (mb_run p d rnd es (mb_mount p d rnd k bw bh st))), j)
         = (mb_cleanup (fst (mb_run p d rnd es (mb_mount p d rnd k bw bh st))), j)"
    and "mb_step p d rnd (MbResize w h)
           (mb_cleanup (fst (mb_run p d rnd es (mb_mount p d rnd k bw bh st))), j)
         = (mb_cleanup (fst (mb_run p d rnd es (mb_mount p d rnd k bw bh st))), j)"
    and "mb_step p d rnd (MbVisibility hid)
           (mb_cleanup (fst (mb_run p d rnd es (mb_mount p d rnd k bw bh st))), j)
         = ((mb_cleanup (fst (mb_run p d rnd es (mb_mount p d rnd k bw bh st))))\<lparr>doc_hidden := hid\<rparr>, j)"
proof -
  let ?st = "fst (mb_run p d rnd es (mb_mount p d rnd k bw bh st))"
  have "mb_live d (fst (mb_mount p d rnd k bw bh st))"
    using assms by (simp add: mb_live_def mb_mount_fields)
  then have live: "mb_live d ?st" by (rule mb_live_run)
  show f: "mb_frames (mb_cleanup ?st) = []"
    using live by (simp add: mb_live_def mb_cleanup_def Let_def)
  show l: "mb_listeners (mb_cleanup ?st) = []"
    using live by (simp add: mb_live_def mb_cleanup_def Let_def)
  show o: "\<not> observing (mb_cleanup ?st)"
    using live by (simp add: mb_live_def mb_cleanup_def Let_def)
  show "mb_step p d rnd (MbTick ts) (mb_cleanup ?st, j) = (mb_cleanup ?st, j)"
    using f by simp
  show "mb_step p d rnd (MbResize w h) (mb_cleanup ?st, j) = (mb_cleanup ?st, j)"
    using l o by simp
  show "mb_step p d rnd (MbVisibility hid) (mb_cleanup ?st, j)
          = ((mb_cleanup ?st)\<lparr>doc_hidden := hid\<rparr>, j)"
    using l by (simp add: Let_def)
qed

section \<open>The states the overlay reaches\<close>

lemma co_call_timers: "co_timers (co_call p pg cb st) = co_timers st"
  by (cases cb) (simp_all add: rebuild_fields updatePositions_fields co_request_frame_def)

lemma co_reach_cong:
  "co_frames st' = co_frames st \<Longrightarrow> co_next_handle st' = co_next_handle st \<Longrightarrow>
   rebuildScheduled st' = rebuildScheduled st \<Longrightarrow> pending st' = pending st \<Longrightarrow>
   co_timers st' = co_timers st \<Longrightarrow> co_reach st' = co_reach st"
  by (simp add: co_reach_def co_inv_def mo_pending_def)

lemma co_reach_call:
  assumes "co_reach st" "f \<in> set (co_frames st)"
  shows "co_reach (co_call p pg (snd f) (st\<lparr>co_frames := removeAll f (co_frames st)\<rparr>))"
proof -
  let ?st1 = "st\<lparr>co_frames := removeAll f (co_frames st)\<rparr>"
  have inv: "co_inv st"
    and tm: "list_all (\<lambda>t. snd t = TimeoutRebuild \<or> snd t = IntervalUpdate) (co_timers st)"
    and kd: "list_all (\<lambda>f. snd f = RafLoop \<or> snd f = MoRebuild \<or> snd f = RecalcRebuild)
               (co_frames st)"
    and rc: "length (filter (\<lambda>f. snd f = RecalcRebuild) (co_frames st))
               = (if pending st then 1 else 0)"
    using assms(1) by (simp_all add: co_reach_def)
  have d: "distinct (map fst (co_frames st))" using inv by (simp add: co_inv_def)
  have dx: "distinct (co_frames st)" using d by (rule distinct_map[THEN iffD1, THEN conjunct1])
  have a: "co_inv (co_call p pg (snd f) ?st1)" using inv assms(2) by (rule co_inv_call)
  have b: "list_all (\<lambda>t. snd t = TimeoutRebuild \<or> snd t = IntervalUpdate)
             (co_timers (co_call p pg (snd f) ?st1))"
    using tm by (simp add: co_call_timers)
  have c: "list_all (\<lambda>f. snd f = RafLoop \<or> snd f = MoRebuild \<or> snd f = RecalcRebuild)
             (co_frames (co_call p pg (snd f) ?st1))"
    using kd by (auto simp: co_call_fields list_all_iff)
  have k: "snd f = RafLoop \<or> snd f = MoRebuild \<or> snd f = RecalcRebuild"
    using kd assms(2) by (auto simp: list_all_iff)
  have e: "length (filter (\<lambda>f. snd f = RecalcRebuild) (co_frames (co_call p pg (snd f) ?st1)))
             = (if pending (co_call p pg (snd f) ?st1) then 1 else 0)"
  proof (cases "snd f = RecalcRebuild")
    case True
    have "Suc (length (filter (\<lambda>g. snd g = RecalcRebuild) (removeAll f (co_frames st))))
            = length (filter (\<lambda>g. snd g = RecalcRebuild) (co_frames st))"
      using filter_removeAll_count[OF dx assms(2), of "\<lambda>g. snd g = RecalcRebuild"] True by simp
    then have "length (filter (\<lambda>g. snd g = RecalcRebuild) (removeAll f (co_frames st))) = 0"
      using rc by (simp split: if_splits)
    then show ?thesis using True by (simp add: rebuild_fields)
  next
    case False
    then have "filter (\<lambda>g. snd g = RecalcRebuild) (removeAll f (co_frames st))
                 = filter (\<lambda>g. snd g = RecalcRebuild) (co_frames st)"
      by (simp add: filter_removeAll_same)
    then show ?thesis using False rc k by (auto simp: co_call_fields)
  qed
  show ?thesis unfolding co_reach_def using a b c e by blast
qed

lemma co_reach_frames: "co_reach st \<Longrightarrow> co_reach (co_run_frames p pg fs st)"
proof (induction fs arbitrary: st)
  case Nil
  then show ?case by simp
next
  case (Cons f fs)
  show ?case
  proof (cases "f \<in> set (co_frames st)")
    case True
    have "co_reach (co_call p pg (snd f) (st\<lparr>co_frames := removeAll f (co_frames st)\<rparr>))"
      using Cons.prems True by (rule co_reach_call)
    then show ?thesis using True Cons.IH by simp
  next
    case False
    then show ?thesis using Cons by simp
  qed
qed

lemma co_reach_plain_call:
  assumes "co_reach st" "cb = TimeoutRebuild \<or> cb = IntervalUpdate"
  shows "co_reach (co_call p pg cb st)"
  using assms co_reach_cong[of "rebuild p pg st" st] co_reach_cong[of "updatePositions pg st" st]
  by (auto simp: rebuild_fields updatePositions_fields)

lemma co_reach_on_mutation: "co_reach st \<Longrightarrow> co_reach (on_mutation st)"
  using co_inv_on_mutation[of st]
  by (auto simp: co_reach_def on_mutation_fields list_all_iff)

lemma co_reach_scheduleRecalc: "co_reach st \<Longrightarrow> co_reach (scheduleRecalc st)"
  by (auto simp: co_reach_def co_inv_def mo_pending_def scheduleRecalc_def
        co_request_frame_def list_all_iff)

lemma co_reach_step: "co_reach st \<Longrightarrow> co_reach (co_step p e st)"
proof (cases e)
  case CoMutation
  assume "co_reach st"
  then show ?thesis using CoMutation by (simp add: co_reach_on_mutation)
next
  case CoWindow
  assume "co_reach st"
  then show ?thesis using CoWindow by (simp add: co_reach_scheduleRecalc)
next
  case (CoPointer x y)
  assume "co_reach st"
  then show ?thesis using CoPointer
    co_reach_cong[of "st\<lparr>co_pointer := Some (x, y)\<rparr>" st] by simp
next
  case (CoTick pg)
  assume "co_reach st"
  then show ?thesis using CoTick co_reach_frames by simp
next
  case (CoTimer h pg)
  assume r: "co_reach st"
  show ?thesis
  proof (cases "map_of (co_timers st) h")
    case None
    then show ?thesis using CoTimer r by simp
  next
    case (Some cb)
    then have "(h, cb) \<in> set (co_timers st)" by (rule map_of_SomeD)
    then have k: "cb = TimeoutRebuild \<or> cb = IntervalUpdate"
      using r by (auto simp: co_reach_def list_all_iff)
    have i0: "co_reach (st\<lparr>co_timers := filter (\<lambda>t. fst t \<noteq> h) (co_timers st)\<rparr>)"
      using r by (auto simp: co_reach_def co_inv_def mo_pending_def list_all_iff)
    show ?thesis
    proof (cases "cb = TimeoutRebuild")
      case True
      then show ?thesis
        using CoTimer Some co_reach_plain_call[OF i0, of TimeoutRebuild p pg] by simp
    next
      case False
      then have "cb = IntervalUpdate" using k by simp
      then show ?thesis
        using CoTimer Some co_reach_plain_call[OF r, of IntervalUpdate p pg] by simp
    qed
  qed
next
  case CoDetachRef
  assume "co_reach st"
  then show ?thesis using CoDetachRef
    co_reach_cong[of "st\<lparr>svg_present := False\<rparr>" st] by simp
qed

lemma co_reach_run: "co_reach st \<Longrightarrow> co_reach (co_run p es st)"
  by (induction es arbitrary: st) (simp_all add: co_reach_step)

text \<open>The mount, from fresh refs, for any props and any page.\<close>

lemma co_mount_fields:
  "co_frames (co_mount p pg co_initial_refs) = [(3, RafLoop)]"
  "co_timers (co_mount p pg co_initial_refs)
     = [(1, TimeoutRebuild), (2, TimeoutRebuild), (4, IntervalUpdate)]"
  "co_next_handle (co_mount p pg co_initial_refs) = 5"
  "\<not> rebuildScheduled (co_mount p pg co_initial_refs)"
  "\<not> pending (co_mount p pg co_initial_refs)"
  "mo_connected (co_mount p pg co_initial_refs)"
  "svg_present (co_mount p pg co_initial_refs)"
  "rebuilds (co_mount p pg co_initial_refs) = 1"
  "observer_rebuilds (co_mount p pg co_initial_refs) = 0"
  by (simp_all add: co_mount_def Let_def co_set_timer_def attachNodeListeners_def
        co_request_frame_def rebuild_fields co_initial_refs_def)

lemma co_mount_reach: "co_reach (co_mount p pg co_initial_refs)"
  by (simp add: co_reach_def co_inv_def mo_pending_def co_mount_fields)

text \<open>
  Every state the overlay reaches from its mount, for any props, any page and any events,
  satisfies the invariant the coalescing starts from; and in such a state at most one
  rebuild of a resize or scroll is waiting, so that the frame after a burst of mutations
  runs two rebuilds at most.
\<close>

lemma overlay_states_invariant: "co_inv (co_run p es (co_mount p pg co_initial_refs))"
  using co_reach_run[OF co_mount_reach, of p es p pg] by (simp add: co_reach_def)

lemma other_rebuilds_at_most_one:
  "other_rebuilds_pending (co_run p es (co_mount p pg co_initial_refs)) \<le> 1"
proof -
  let ?st = "co_run p es (co_mount p pg co_initial_refs)"
  have r: "co_reach ?st" using co_reach_run[OF co_mount_reach] .
  then have "filter (\<lambda>f. snd f = RecalcRebuild \<or> snd f = TimeoutRebuild) (co_frames ?st)
               = filter (\<lambda>f. snd f = RecalcRebuild) (co_frames ?st)"
    by (intro filter_cong) (auto simp: co_reach_def list_all_iff)
  then show ?thesis using r by (simp add: other_rebuilds_pending_def co_reach_def)
qed

end
